theory Spec2Isabelle
  imports Complex_Main
begin

section \<open>Numbers and exceptions\<close>

text \<open>
  The solver of \<^verbatim>\<open>src/pybemt/solver.py\<close> computes with Python floats. They are
  idealised here as real numbers: rounding, overflow of products to \<^verbatim>\<open>inf\<close> and the
  NaNs that arise from them are outside this development (the array of residuals of
  \<^verbatim>\<open>brute_solve\<close>, which the code tests for NaN, keeps them). What Python does beyond
  returning a number is written out as a value of \<open>error + 'a\<close>: a float division
  by zero raises \<^verbatim>\<open>ZeroDivisionError\<close>, \<^verbatim>\<open>math.sqrt\<close> and \<^verbatim>\<open>math.acos\<close>
  raise \<^verbatim>\<open>ValueError\<close> outside their domain, and \<^verbatim>\<open>math.exp\<close> raises
  \<^verbatim>\<open>OverflowError\<close> when its result exceeds the largest double (the one overflow
  that is modelled, since the guard of \<^verbatim>\<open>prandtl\<close> exists for it).
\<close>

datatype error = ZeroDivisionError | ValueError | OverflowError | NameError

definition bind_r :: "error + 'a \<Rightarrow> ('a \<Rightarrow> error + 'b) \<Rightarrow> error + 'b" where
  "bind_r m f = (case m of Inl e \<Rightarrow> Inl e | Inr x \<Rightarrow> f x)"

definition py_div :: "real \<Rightarrow> real \<Rightarrow> error + real" where
  "py_div x y = (if y = 0 then Inl ZeroDivisionError else Inr (x / y))"

definition py_sqrt :: "real \<Rightarrow> error + real" where
  "py_sqrt x = (if x < 0 then Inl ValueError else Inr (sqrt x))"

definition py_acos :: "real \<Rightarrow> error + real" where
  "py_acos x = (if - 1 \<le> x \<and> x \<le> 1 then Inr (arccos x) else Inl ValueError)"

definition dbl_max :: real where
  "dbl_max = (2 - 1 / 2 ^ 52) * 2 ^ 1023"

definition py_exp :: "real \<Rightarrow> error + real" where
  "py_exp x = (if dbl_max < exp x then Inl OverflowError else Inr (exp x))"

section \<open>Data model\<close>

text \<open>
  Modelled from the spec: the airfoil module (\<^verbatim>\<open>load_airfoil\<close>) is not among the
  sources. Its interface is \<^verbatim>\<open>Cl(alpha) -> float\<close>, \<^verbatim>\<open>Cd(alpha) -> float\<close>,
  deterministic and pure, so an airfoil is a pair of functions on the reals.
\<close>

record Airfoil =
  af_Cl :: "real \<Rightarrow> real"
  af_Cd :: "real \<Rightarrow> real"

text \<open>
  The fields of \<^verbatim>\<open>Section\<close>, each with the prefix \<open>sec_\<close>. The back reference
  \<^verbatim>\<open>self.rotor\<close> is not a field: the functions of a section take the owning rotor
  as an argument.
\<close>

record Section =
  sec_airfoil :: Airfoil
  sec_radius :: real
  sec_width :: real
  sec_pitch :: real
  sec_chord :: real
  sec_C :: int
  sec_v :: real
  sec_v_theta :: real
  sec_v_rel :: real
  sec_a :: real
  sec_ap :: real
  sec_Re :: real
  sec_alpha :: real
  sec_dT :: real
  sec_dQ :: real
  sec_F :: real
  sec_Cl :: real
  sec_Cd :: real
  sec_sigma :: real

record Rotor =
  n_blades :: int
  diameter :: real
  sections :: "Section list"
  radius_hub :: real
  blade_radius :: real
  area :: real

record Fluid =
  rho :: real
  mu :: real

section \<open>Section\<close>

text \<open>\<^verbatim>\<open>Section.__init__\<close>: the sign convention, the zeroed report fields, \<^verbatim>\<open>precalc\<close>.\<close>

definition mode_C :: "string \<Rightarrow> int" where
  "mode_C mode = (if mode = ''turbine'' then - 1 else 1)"

definition section_precalc :: "Rotor \<Rightarrow> Section \<Rightarrow> error + Section" where
  "section_precalc rot sec =
     bind_r (py_div (of_int (n_blades rot) * sec_chord sec) (2 * pi * sec_radius sec))
       (\<lambda>s. Inr (sec\<lparr>sec_sigma := s\<rparr>))"

definition section_init ::
  "Airfoil \<Rightarrow> real \<Rightarrow> real \<Rightarrow> real \<Rightarrow> real \<Rightarrow> Rotor \<Rightarrow> string \<Rightarrow> error + Section" where
  "section_init af r w p c rot mode =
     section_precalc rot
       \<lparr>sec_airfoil = af, sec_radius = r, sec_width = w, sec_pitch = p, sec_chord = c,
        sec_C = mode_C mode, sec_v = 0, sec_v_theta = 0, sec_v_rel = 0, sec_a = 0,
        sec_ap = 0, sec_Re = 0, sec_alpha = 0, sec_dT = 0, sec_dQ = 0, sec_F = 0,
        sec_Cl = 0, sec_Cd = 0, sec_sigma = 0\<rparr>"

text \<open>
  \<^verbatim>\<open>prandtl(dr, r, phi)\<close>, the closure inside \<^verbatim>\<open>tip_loss\<close>; its first argument
  is \<^verbatim>\<open>self.rotor.n_blades\<close>. \<open>prandtl_factor\<close> is the branch on \<open>f\<close>.
\<close>

definition prandtl_factor :: "real \<Rightarrow> error + real" where
  "prandtl_factor f =
     (if - f > 500 then Inr 1
      else bind_r (py_exp (- f)) (\<lambda>e.
           bind_r (py_acos (min 1 e)) (\<lambda>ac. Inr (2 * ac / pi))))"

text \<open>The formula of the else branch, without the guard.\<close>

definition prandtl_unguarded :: "real \<Rightarrow> real" where
  "prandtl_unguarded f = 2 * arccos (min 1 (exp (- f))) / pi"

definition prandtl :: "int \<Rightarrow> real \<Rightarrow> real \<Rightarrow> real \<Rightarrow> error + real" where
  "prandtl nb dr r phi =
     bind_r (py_div (of_int nb * dr) (2 * r * sin phi)) prandtl_factor"

definition tip_loss :: "Rotor \<Rightarrow> Section \<Rightarrow> real \<Rightarrow> error + real \<times> Section" where
  "tip_loss rot sec phi =
     bind_r
       (if phi = 0 then Inr 1
        else
          (let r = sec_radius sec in
           bind_r (prandtl (n_blades rot) (blade_radius rot - r) r phi) (\<lambda>Ftip.
           bind_r (prandtl (n_blades rot) (r - radius_hub rot) r phi) (\<lambda>Fhub.
           Inr (Ftip * Fhub)))))
       (\<lambda>F. Inr (F, sec\<lparr>sec_F := F\<rparr>))"

text \<open>
  \<^verbatim>\<open>airfoil_forces\<close>: the angle of attack is the local \<^verbatim>\<open>alpha = C*(self.pitch - phi)\<close>.
\<close>

definition angle_of_attack :: "Section \<Rightarrow> real \<Rightarrow> real" where
  "angle_of_attack sec phi = of_int (sec_C sec) * (sec_pitch sec - phi)"

definition airfoil_forces :: "Section \<Rightarrow> real \<Rightarrow> real \<times> real" where
  "airfoil_forces sec phi =
     (let C = of_int (sec_C sec);
          alpha = angle_of_attack sec phi;
          Cl = af_Cl (sec_airfoil sec) alpha;
          Cd = af_Cd (sec_airfoil sec) alpha;
          CT = Cl * cos phi - C * Cd * sin phi;
          CQ = Cl * sin phi + C * Cd * cos phi
      in (CT, CQ))"

text \<open>
  \<^verbatim>\<open>induction_factors\<close>. Each \<^verbatim>\<open>/\<close> is a float division and raises on a zero
  divisor; \<^verbatim>\<open>tip_loss\<close> has stored \<^verbatim>\<open>self.F\<close> before the first one.
\<close>

definition induction_factors ::
  "Rotor \<Rightarrow> Section \<Rightarrow> real \<Rightarrow> error + (real \<times> real) \<times> Section" where
  "induction_factors rot sec phi =
     (let C = of_int (sec_C sec) in
      bind_r (tip_loss rot sec phi) (\<lambda>(F, sec1).
      (let (CT, CQ) = airfoil_forces sec1 phi in
       bind_r (py_div (4 * F * (sin phi)\<^sup>2) (sec_sigma sec1 * CT)) (\<lambda>kappa.
       bind_r (py_div (4 * F * sin phi * cos phi) (sec_sigma sec1 * CQ)) (\<lambda>kappap.
       bind_r (py_div 1 (kappa - C)) (\<lambda>a.
       bind_r (py_div 1 (kappap + C)) (\<lambda>ap.
       Inr ((a, ap), sec1))))))))"

text \<open>\<^verbatim>\<open>func\<close>, the residual; it stores \<^verbatim>\<open>self.a\<close> and \<^verbatim>\<open>self.ap\<close>.\<close>

definition func :: "Rotor \<Rightarrow> Section \<Rightarrow> real \<Rightarrow> real \<Rightarrow> real \<Rightarrow> error + real \<times> Section" where
  "func rot sec phi v_inf omega =
     (let C = of_int (sec_C sec) in
      bind_r (induction_factors rot sec phi) (\<lambda>((a, ap), sec1).
      bind_r (py_div (sin phi) (1 + C * a)) (\<lambda>t1.
      bind_r (py_div (v_inf * cos phi) (omega * sec_radius sec1 * (1 - C * ap))) (\<lambda>t2.
      Inr (t1 - t2, sec1\<lparr>sec_a := a, sec_ap := ap\<rparr>)))))"

text \<open>
  \<^verbatim>\<open>forces\<close>. It assigns \<^verbatim>\<open>self.Re\<close>, \<^verbatim>\<open>self.dT\<close> and \<^verbatim>\<open>self.dQ\<close>; \<^verbatim>\<open>a\<close>,
  \<^verbatim>\<open>ap\<close>, \<^verbatim>\<open>CT\<close> and \<^verbatim>\<open>CQ\<close> are locals here.
\<close>

definition forces ::
  "Rotor \<Rightarrow> Section \<Rightarrow> real \<Rightarrow> real \<Rightarrow> real \<Rightarrow> Fluid \<Rightarrow> error + (real \<times> real) \<times> Section" where
  "forces rot sec phi v_inf omega fl =
     (let C = of_int (sec_C sec); r = sec_radius sec in
      bind_r (induction_factors rot sec phi) (\<lambda>((a, ap), sec1).
      (let (CT, CQ) = airfoil_forces sec1 phi;
           v = (1 + C * a) * v_inf;
           vp = (1 - C * ap) * omega * r
       in bind_r (py_sqrt (v\<^sup>2 + vp\<^sup>2)) (\<lambda>U.
          bind_r (py_div (rho fl * U * sec_chord sec1) (mu fl)) (\<lambda>Re.
          (let dT = sec_sigma sec1 * pi * rho fl * U\<^sup>2 * CT * r * sec_width sec1;
               dQ = sec_sigma sec1 * pi * rho fl * U\<^sup>2 * CQ * r\<^sup>2 * sec_width sec1
           in Inr ((dT, dQ), sec1\<lparr>sec_Re := Re, sec_dT := dT, sec_dQ := dQ\<rparr>)))))))"

section \<open>Rotor\<close>

definition rotor_precalc :: "Rotor \<Rightarrow> Rotor" where
  "rotor_precalc rot =
     (let br = 0.5 * diameter rot in rot\<lparr>blade_radius := br, area := pi * br\<^sup>2\<rparr>)"

text \<open>
  \<^verbatim>\<open>sections_dataframe\<close>: a column per name, in the order of \<^verbatim>\<open>columns\<close>, read
  from every section with \<^verbatim>\<open>getattr\<close>.
\<close>

type_synonym dataframe = "(string \<times> real list) list"

definition columns :: "(string \<times> (Section \<Rightarrow> real)) list" where
  "columns =
     [(''radius'', sec_radius), (''chord'', sec_chord), (''pitch'', sec_pitch),
      (''Cl'', sec_Cl), (''Cd'', sec_Cd), (''dT'', sec_dT), (''dQ'', sec_dQ),
      (''F'', sec_F), (''a'', sec_a), (''ap'', sec_ap), (''Re'', sec_Re)]"

definition sections_dataframe :: "Rotor \<Rightarrow> dataframe" where
  "sections_dataframe rot = map (\<lambda>(param, getattr). (param, map getattr (sections rot))) columns"

section \<open>Solver\<close>

record Solver =
  slv_v_inf :: real
  slv_rpm :: real
  slv_coaxial :: bool
  slv_mode :: string
  slv_rotor :: Rotor
  slv_fluid :: Fluid
  slv_T :: real
  slv_Q :: real
  slv_P :: real
  slv_rpm2 :: real
  slv_rotor2 :: Rotor
  slv_zD :: real
  slv_T2 :: real
  slv_Q2 :: real
  slv_P2 :: real
  slv_solver :: string
  slv_Cs :: real
  slv_r_s :: real
  slv_v_s :: real

subsection \<open>The brute-force search\<close>

text \<open>
  \<^verbatim>\<open>brute_solve\<close> keeps the residuals in a numpy array and tests them with
  \<^verbatim>\<open>np.isnan\<close>, so its residuals are float values with their special cases: a
  finite number, the two infinities, or NaN. \<open>np_less\<close> is the float comparison
  (false whenever a NaN takes part), \<open>np_argmin\<close> is \<^verbatim>\<open>np.argmin\<close>: the first index
  of the least entry, the first NaN if there is one, \<^verbatim>\<open>ValueError\<close> on an empty array.
\<close>

datatype npfloat = Fin real | PInf | NInf | NaN

fun np_isnan :: "npfloat \<Rightarrow> bool" where
  "np_isnan NaN = True"
| "np_isnan _ = False"

fun np_abs :: "npfloat \<Rightarrow> npfloat" where
  "np_abs (Fin x) = Fin \<bar>x\<bar>"
| "np_abs PInf = PInf"
| "np_abs NInf = PInf"
| "np_abs NaN = NaN"

fun np_less :: "npfloat \<Rightarrow> npfloat \<Rightarrow> bool" where
  "np_less (Fin x) (Fin y) = (x < y)"
| "np_less (Fin x) PInf = True"
| "np_less NInf (Fin y) = True"
| "np_less NInf PInf = True"
| "np_less _ _ = False"

fun argmin_from :: "npfloat list \<Rightarrow> nat \<Rightarrow> nat \<Rightarrow> npfloat \<Rightarrow> nat" where
  "argmin_from [] i best bv = best"
| "argmin_from (x # xs) i best bv =
     (if \<not> np_isnan bv \<and> (np_isnan x \<or> np_less x bv)
      then argmin_from xs (Suc i) i x
      else argmin_from xs (Suc i) best bv)"

definition np_argmin :: "npfloat list \<Rightarrow> error + nat" where
  "np_argmin xs = (case xs of [] \<Rightarrow> Inl ValueError | x # rest \<Rightarrow> Inr (argmin_from rest 1 0 x))"

text \<open>\<^verbatim>\<open>np.linspace(lo, hi, n)\<close>: \<open>n\<close> points, both ends included.\<close>

definition linspace :: "real \<Rightarrow> real \<Rightarrow> nat \<Rightarrow> real list" where
  "linspace lo hi n =
     (if n = 1 then [lo]
      else map (\<lambda>i. lo + real i * ((hi - lo) / real (n - 1))) [0..<n])"

text \<open>
  The loop of \<^verbatim>\<open>brute_solve\<close> over the grid, for a residual \<open>f\<close> that threads the
  section it mutates: a NaN is stored as \<^verbatim>\<open>1e30\<close>, every other value as it is. An
  exception of \<open>f\<close> leaves the loop, which has no handler.
\<close>

definition store_resid :: "npfloat \<Rightarrow> npfloat" where
  "store_resid res = (if \<not> np_isnan res then res else Fin (10 ^ 30))"

fun brute_loop ::
  "(Section \<Rightarrow> real \<Rightarrow> error + npfloat \<times> Section) \<Rightarrow> Section \<Rightarrow> real list
     \<Rightarrow> error + npfloat list \<times> Section" where
  "brute_loop f sec [] = Inr ([], sec)"
| "brute_loop f sec (phi # phis) =
     bind_r (f sec phi) (\<lambda>(res, sec1).
     bind_r (brute_loop f sec1 phis) (\<lambda>(resid, sec2).
     Inr (store_resid res # resid, sec2)))"

definition brute_solve_with ::
  "(Section \<Rightarrow> real \<Rightarrow> error + npfloat \<times> Section) \<Rightarrow> Section \<Rightarrow> nat
     \<Rightarrow> error + real \<times> Section" where
  "brute_solve_with f sec n =
     (let phis = linspace (- 0.9 * pi) (0.9 * pi) n in
      bind_r (brute_loop f sec phis) (\<lambda>(resid, sec1).
      bind_r (np_argmin (map np_abs resid)) (\<lambda>i.
      Inr (phis ! i, sec1))))"

text \<open>
  \<^verbatim>\<open>brute_solve(sec, v, omega)\<close> with its default \<^verbatim>\<open>n=3600\<close>. The residual is
  \<^verbatim>\<open>sec.func\<close>; computed on the reals, it is a finite float whenever it returns.
\<close>

definition func_np ::
  "Rotor \<Rightarrow> real \<Rightarrow> real \<Rightarrow> Section \<Rightarrow> real \<Rightarrow> error + npfloat \<times> Section" where
  "func_np rot v omega sec phi =
     bind_r (func rot sec phi v omega) (\<lambda>(res, sec1). Inr (Fin res, sec1))"

definition brute_solve :: "Rotor \<Rightarrow> Section \<Rightarrow> real \<Rightarrow> real \<Rightarrow> error + real \<times> Section" where
  "brute_solve rot sec v omega = brute_solve_with (func_np rot v omega) sec 3600"

subsection \<open>solve\<close>

text \<open>
  \<^verbatim>\<open>scipy.optimize.bisect\<close> is a library routine outside the sources, so it is a
  parameter: given the residual (which threads the section), the bracket and the
  section, it returns the root and the section as its last call left it, or raises.
  Only \<^verbatim>\<open>ValueError\<close> is caught by \<^verbatim>\<open>solve\<close>, which then runs the brute-force
  search on the section. That search rewrites every field a call of \<^verbatim>\<open>func\<close> writes
  (\<^verbatim>\<open>F\<close>, \<^verbatim>\<open>a\<close>, \<^verbatim>\<open>ap\<close>) and reads none of them, so it starts here from the
  section as it was before the bisection.
\<close>

type_synonym root_finder =
  "(Section \<Rightarrow> real \<Rightarrow> error + real \<times> Section) \<Rightarrow> real \<Rightarrow> real \<Rightarrow> Section
     \<Rightarrow> error + real \<times> Section"

definition section_inflow :: "Section \<Rightarrow> real \<Rightarrow> real \<Rightarrow> real" where
  "section_inflow sec v_inflow r_inflow = (if sec_radius sec < r_inflow then v_inflow else 0)"

definition find_phi ::
  "root_finder \<Rightarrow> string \<Rightarrow> Rotor \<Rightarrow> Section \<Rightarrow> real \<Rightarrow> real \<Rightarrow> error + real \<times> Section" where
  "find_phi bisect sname rot sec v omega =
     (if sname = ''brute'' then brute_solve rot sec v omega
      else
        (case bisect (\<lambda>s phi. func rot s phi v omega) (0.01 * pi) (0.9 * pi) sec of
           Inr r \<Rightarrow> Inr r
         | Inl e \<Rightarrow> (if e = ValueError then brute_solve rot sec v omega else Inl e)))"

fun solve_loop ::
  "root_finder \<Rightarrow> string \<Rightarrow> Fluid \<Rightarrow> Rotor \<Rightarrow> real \<Rightarrow> real \<Rightarrow> real \<Rightarrow> Section list
     \<Rightarrow> real \<Rightarrow> real \<Rightarrow> error + (real \<times> real) \<times> Section list" where
  "solve_loop bisect sname fl rot omega v_inflow r_inflow [] T Q = Inr ((T, Q), [])"
| "solve_loop bisect sname fl rot omega v_inflow r_inflow (sec # secs) T Q =
     (let v = section_inflow sec v_inflow r_inflow in
      bind_r (find_phi bisect sname rot sec v omega) (\<lambda>(phi, sec1).
      bind_r (forces rot sec1 phi v omega fl) (\<lambda>((dT, dQ), sec2).
      bind_r (solve_loop bisect sname fl rot omega v_inflow r_inflow secs (T + dT) (Q + dQ))
        (\<lambda>(TQ, secs'). Inr (TQ, sec2 # secs')))))"

text \<open>
  What a Python function returns is a tuple of floats and tables: \<^verbatim>\<open>solve\<close> returns
  \<^verbatim>\<open>T, Q, P\<close>. The rotor it mutated is returned beside the tuple.
\<close>

datatype pyval = PFloat real | PFrame dataframe

fun is_frame :: "pyval \<Rightarrow> bool" where
  "is_frame (PFrame d) = True"
| "is_frame (PFloat x) = False"

definition solve ::
  "root_finder \<Rightarrow> Solver \<Rightarrow> Rotor \<Rightarrow> real \<Rightarrow> real \<Rightarrow> real \<Rightarrow> error + pyval list \<times> Rotor" where
  "solve bisect slv rot rpm v_inflow r_inflow =
     (let rot1 = rotor_precalc rot;
          omega = rpm * 2 * pi / 60
      in bind_r (solve_loop bisect (slv_solver slv) (slv_fluid slv) rot1 omega v_inflow r_inflow
                   (sections rot1) 0 0) (\<lambda>((T, Q), secs).
         (let P = Q * omega
          in Inr ([PFloat T, PFloat Q, PFloat P], rot1\<lparr>sections := secs\<rparr>))))"

subsection \<open>slipstream and run\<close>

text \<open>
  \<^verbatim>\<open>slipstream\<close>: \<^verbatim>\<open>sqrt\<close> is \<^verbatim>\<open>math.sqrt\<close>, which raises \<^verbatim>\<open>ValueError\<close> on a
  negative argument; \<^verbatim>\<open>sqrt(2.0)\<close> is a non-zero constant.
\<close>

definition slipstream :: "Solver \<Rightarrow> error + real \<times> real" where
  "slipstream slv =
     (let r_s = blade_radius (slv_rotor slv) / sqrt 2 in
      bind_r (py_div (2 * slv_T slv) (rho (slv_fluid slv) * area (slv_rotor slv))) (\<lambda>q.
      bind_r (py_sqrt q) (\<lambda>s.
      Inr (r_s, slv_Cs slv * s))))"

text \<open>
  Tuple unpacking, as in \<^verbatim>\<open>self.T, self.Q, self.P = self.solve(...)\<close>: a tuple of
  another length raises \<^verbatim>\<open>ValueError\<close>.
\<close>

fun unpack3 :: "pyval list \<Rightarrow> error + pyval \<times> pyval \<times> pyval" where
  "unpack3 [x1, x2, x3] = Inr (x1, x2, x3)"
| "unpack3 _ = Inl ValueError"

fun unpack4 :: "pyval list \<Rightarrow> error + pyval \<times> pyval \<times> pyval \<times> pyval" where
  "unpack4 [x1, x2, x3, x4] = Inr (x1, x2, x3, x4)"
| "unpack4 _ = Inl ValueError"

fun unpack8 ::
  "pyval list
     \<Rightarrow> error + pyval \<times> pyval \<times> pyval \<times> pyval \<times> pyval \<times> pyval \<times> pyval \<times> pyval" where
  "unpack8 [x1, x2, x3, x4, x5, x6, x7, x8] = Inr (x1, x2, x3, x4, x5, x6, x7, x8)"
| "unpack8 _ = Inl ValueError"

text \<open>The float inside a value that \<^verbatim>\<open>solve\<close> returned.\<close>

fun float_of :: "pyval \<Rightarrow> real" where
  "float_of (PFloat x) = x"
| "float_of (PFrame d) = 0"

text \<open>\<^verbatim>\<open>run\<close>; the \<^verbatim>\<open>print\<close> calls are left out.\<close>

definition run :: "root_finder \<Rightarrow> Solver \<Rightarrow> error + pyval list \<times> Solver" where
  "run bisect slv =
     bind_r (solve bisect slv (slv_rotor slv) (slv_rpm slv) (slv_v_inf slv)
               (diameter (slv_rotor slv))) (\<lambda>(ret, rot1).
     bind_r (unpack3 ret) (\<lambda>(T, Q, P).
     (let slv1 = slv\<lparr>slv_rotor := rot1, slv_T := float_of T, slv_Q := float_of Q,
                     slv_P := float_of P\<rparr>
      in if slv_coaxial slv1 then
           bind_r (slipstream slv1) (\<lambda>(r_s, v_s).
           (let slv2 = slv1\<lparr>slv_r_s := r_s, slv_v_s := v_s\<rparr> in
            bind_r (solve bisect slv2 (slv_rotor2 slv2) (slv_rpm2 slv2) (slv_v_s slv2)
                      (slv_r_s slv2)) (\<lambda>(ret2, rot2).
            bind_r (unpack3 ret2) (\<lambda>(T2, Q2, P2).
            (let slv3 = slv2\<lparr>slv_rotor2 := rot2, slv_T2 := float_of T2,
                            slv_Q2 := float_of Q2, slv_P2 := float_of P2\<rparr>
             in Inr ([PFloat (slv_T slv3), PFloat (slv_Q slv3), PFloat (slv_P slv3),
                      PFrame (sections_dataframe (slv_rotor slv3)),
                      PFloat (slv_T2 slv3), PFloat (slv_Q2 slv3), PFloat (slv_P2 slv3),
                      PFrame (sections_dataframe (slv_rotor2 slv3))], slv3))))))
         else
           Inr ([PFloat (slv_T slv1), PFloat (slv_Q slv1), PFloat (slv_P slv1),
                 PFrame (sections_dataframe (slv_rotor slv1))], slv1))))"

subsection \<open>Coefficients and the parameter sweep\<close>

definition rotor_coeffs ::
  "Solver \<Rightarrow> real \<Rightarrow> real \<Rightarrow> real \<Rightarrow> error + real \<times> real \<times> real \<times> real \<times> real" where
  "rotor_coeffs slv T Q P =
     (let D = diameter (slv_rotor slv);
          rh = rho (slv_fluid slv);
          n = slv_rpm slv / 60
      in bind_r (py_div (slv_v_inf slv) (n * D)) (\<lambda>J.
         bind_r (py_div T (rh * n\<^sup>2 * D ^ 4)) (\<lambda>CT.
         bind_r (py_div Q (rh * n\<^sup>2 * D ^ 5)) (\<lambda>CQ.
         (let CP = 2 * pi * CQ in
          bind_r (py_div CT CP) (\<lambda>ratio.
          Inr (J, CT, CQ, CP, (if J = 0 then ratio else ratio * J))))))))"

definition turbine_coeffs ::
  "Solver \<Rightarrow> real \<Rightarrow> real \<Rightarrow> real \<Rightarrow> error + real \<times> real \<times> real" where
  "turbine_coeffs slv T Q P =
     (let rh = rho (slv_fluid slv);
          V = slv_v_inf slv;
          omega = slv_rpm slv * 2 * pi / 60
      in bind_r (py_div (omega * blade_radius (slv_rotor slv)) V) (\<lambda>TSR.
         bind_r (py_div T (0.5 * rh * area (slv_rotor slv) * V\<^sup>2)) (\<lambda>CT.
         bind_r (py_div P (0.5 * rh * area (slv_rotor slv) * V ^ 3)) (\<lambda>CP.
         Inr (TSR, CP, CT)))))"

text \<open>
  \<^verbatim>\<open>setattr(self, parameter, p)\<close> for the attributes of the solver that hold a
  float. A name that is no attribute of the solver makes a new attribute that nothing
  reads, so the solver is as before; the names of the other attributes (\<^verbatim>\<open>rotor\<close>,
  \<^verbatim>\<open>fluid\<close>, \<^verbatim>\<open>mode\<close>, \<^verbatim>\<open>coaxial\<close>, \<^verbatim>\<open>solver\<close>) and of the methods are not
  parameters of a sweep and are listed in \<open>reserved_names\<close>.
\<close>

definition reserved_names :: "string list" where
  "reserved_names =
     [''rotor'', ''rotor2'', ''fluid'', ''mode'', ''coaxial'', ''solver'', ''rotor_coeffs'',
      ''turbine_coeffs'', ''run_sweep'', ''solve'', ''slipstream'', ''run'', ''brute_solve'',
      ''optimize_pitch'']"

definition setattr :: "Solver \<Rightarrow> string \<Rightarrow> real \<Rightarrow> Solver" where
  "setattr slv name p =
     (if name = ''v_inf'' then slv\<lparr>slv_v_inf := p\<rparr>
      else if name = ''rpm'' then slv\<lparr>slv_rpm := p\<rparr>
      else if name = ''rpm2'' then slv\<lparr>slv_rpm2 := p\<rparr>
      else if name = ''Cs'' then slv\<lparr>slv_Cs := p\<rparr>
      else if name = ''zD'' then slv\<lparr>slv_zD := p\<rparr>
      else if name = ''T'' then slv\<lparr>slv_T := p\<rparr>
      else if name = ''Q'' then slv\<lparr>slv_Q := p\<rparr>
      else if name = ''P'' then slv\<lparr>slv_P := p\<rparr>
      else if name = ''T2'' then slv\<lparr>slv_T2 := p\<rparr>
      else if name = ''Q2'' then slv\<lparr>slv_Q2 := p\<rparr>
      else if name = ''P2'' then slv\<lparr>slv_P2 := p\<rparr>
      else if name = ''r_s'' then slv\<lparr>slv_r_s := p\<rparr>
      else if name = ''v_s'' then slv\<lparr>slv_v_s := p\<rparr>
      else slv)"

text \<open>
  One pass of the loop of \<^verbatim>\<open>run_sweep\<close>: the row written to \<^verbatim>\<open>df.iloc[i]\<close> and
  the table appended to \<^verbatim>\<open>sections\<close>. In the coaxial branch the row names
  \<^verbatim>\<open>eta2\<close>, which is assigned nowhere: building the row raises \<^verbatim>\<open>NameError\<close>.
\<close>

definition sweep_step ::
  "root_finder \<Rightarrow> string \<Rightarrow> Solver \<Rightarrow> real \<Rightarrow> error + (real list \<times> pyval) \<times> Solver" where
  "sweep_step bisect parameter slv p =
     (let slv0 = setattr slv parameter p in
      if slv_mode slv0 = ''turbine'' then
        bind_r (run bisect slv0) (\<lambda>(ret, slv1).
        bind_r (unpack4 ret) (\<lambda>(T, Q, P, sec_df).
        bind_r (turbine_coeffs slv1 (float_of T) (float_of Q) (float_of P)) (\<lambda>(TSR, CP, CT).
        Inr (([p, float_of T, float_of Q, float_of P, TSR, CT, CP], sec_df), slv1))))
      else if slv_coaxial slv0 then
        bind_r (run bisect slv0) (\<lambda>(ret, slv1).
        bind_r (unpack8 ret) (\<lambda>(T, Q, P, sec_df, T2, Q2, P2, sec_df2).
        bind_r (rotor_coeffs slv1 (float_of T) (float_of Q) (float_of P))
          (\<lambda>(J, CT, CQ, CP, eta).
        bind_r (rotor_coeffs slv1 (float_of T2) (float_of Q2) (float_of P2))
          (\<lambda>(J, CT2, CQ2, CP2, eta).
        Inl NameError))))
      else
        bind_r (run bisect slv0) (\<lambda>(ret, slv1).
        bind_r (unpack4 ret) (\<lambda>(T, Q, P, sec_df).
        bind_r (rotor_coeffs slv1 (float_of T) (float_of Q) (float_of P))
          (\<lambda>(J, CT, CQ, CP, eta).
        Inr (([p, float_of T, float_of Q, float_of P, J, CT, CQ, CP, eta], sec_df), slv1)))))"

fun sweep_loop ::
  "root_finder \<Rightarrow> string \<Rightarrow> Solver \<Rightarrow> real list
     \<Rightarrow> error + (real list list \<times> pyval list) \<times> Solver" where
  "sweep_loop bisect parameter slv [] = Inr (([], []), slv)"
| "sweep_loop bisect parameter slv (p # ps) =
     bind_r (sweep_step bisect parameter slv p) (\<lambda>((row, sec_df), slv1).
     bind_r (sweep_loop bisect parameter slv1 ps) (\<lambda>((rows, secs), slv2).
     Inr ((row # rows, sec_df # secs), slv2)))"

text \<open>
  \<^verbatim>\<open>run_sweep\<close>: the table is its column names and its rows, one per value of
  \<^verbatim>\<open>np.linspace(low, high, n)\<close>.
\<close>

definition sweep_columns :: "Solver \<Rightarrow> string \<Rightarrow> string list" where
  "sweep_columns slv parameter =
     (if slv_mode slv = ''turbine'' then [parameter, ''T'', ''Q'', ''P'', ''TSR'', ''CT'', ''CP'']
      else if slv_coaxial slv then
        [parameter, ''T'', ''Q'', ''P'', ''J'', ''CT'', ''CQ'', ''CP'', ''eta'',
         ''CT2'', ''CQ2'', ''CP2'', ''eta2'']
      else [parameter, ''T'', ''Q'', ''P'', ''J'', ''CT'', ''CQ'', ''CP'', ''eta''])"

definition run_sweep ::
  "root_finder \<Rightarrow> Solver \<Rightarrow> string \<Rightarrow> nat \<Rightarrow> real \<Rightarrow> real
     \<Rightarrow> error + ((string list \<times> real list list) \<times> pyval list) \<times> Solver" where
  "run_sweep bisect slv parameter n low high =
     (let cols = sweep_columns slv parameter in
      bind_r (sweep_loop bisect parameter slv (linspace low high n)) (\<lambda>((rows, secs), slv1).
      Inr (((cols, rows), secs), slv1)))"

section \<open>A concrete case\<close>

text \<open>
  The end-to-end scenario of the specification: a rotor of 2 blades, diameter 1.0, hub
  radius 0.1, one section of chord 0.05 and pitch 10 degrees, an airfoil with constant
  \<open>Cl = 0.5\<close> and \<open>Cd = 0.02\<close>, a fluid with \<open>rho = 1.225\<close> and \<open>mu = 1.8e-5\<close>,
  \<open>v_inf = 10\<close> and \<open>rpm = 3000\<close>. The specification leaves the radius and the width
  of the section open: the radius is the argument of \<open>scenario_section\<close>, the width is
  0.4. \<open>scenario_geometry\<close> is the rotor before its sections are appended.
\<close>

definition scenario_airfoil :: Airfoil where
  "scenario_airfoil = \<lparr>af_Cl = (\<lambda>alpha. 0.5), af_Cd = (\<lambda>alpha. 0.02)\<rparr>"

definition scenario_geometry :: Rotor where
  "scenario_geometry =
     \<lparr>n_blades = 2, diameter = 1, sections = [], radius_hub = 0.1, blade_radius = 0.5,
      area = pi * 0.5\<^sup>2\<rparr>"

definition scenario_section :: "real \<Rightarrow> Section" where
  "scenario_section r =
     \<lparr>sec_airfoil = scenario_airfoil, sec_radius = r, sec_width = 0.4,
      sec_pitch = 10 * pi / 180, sec_chord = 0.05, sec_C = 1, sec_v = 0, sec_v_theta = 0,
      sec_v_rel = 0, sec_a = 0, sec_ap = 0, sec_Re = 0, sec_alpha = 0, sec_dT = 0,
      sec_dQ = 0, sec_F = 0, sec_Cl = 0, sec_Cd = 0, sec_sigma = 2 * 0.05 / (2 * pi * r)\<rparr>"

definition scenario_rotor :: Rotor where
  "scenario_rotor = scenario_geometry\<lparr>sections := [scenario_section 0.3]\<rparr>"

definition scenario_fluid :: Fluid where
  "scenario_fluid = \<lparr>rho = 1.225, mu = 1.8 / 10 ^ 5\<rparr>"

text \<open>
  The solver of the scenario; \<open>scenario_solver True\<close> is the coaxial case, with a
  second rotor of the same geometry at the same speed.
\<close>

definition scenario_solver :: "bool \<Rightarrow> Solver" where
  "scenario_solver co =
     \<lparr>slv_v_inf = 10, slv_rpm = 3000, slv_coaxial = co, slv_mode = ''rotor'',
      slv_rotor = scenario_rotor, slv_fluid = scenario_fluid, slv_T = 0, slv_Q = 0,
      slv_P = 0, slv_rpm2 = 3000, slv_rotor2 = scenario_rotor, slv_zD = 0.2, slv_T2 = 0,
      slv_Q2 = 0, slv_P2 = 0, slv_solver = ''bisect'', slv_Cs = 0.625, slv_r_s = 0,
      slv_v_s = 0\<rparr>"

text \<open>
  A root finder that answers a given angle without calling the residual: the place of
  \<^verbatim>\<open>scipy.optimize.bisect\<close> where a concrete run is evaluated.
\<close>

definition fixed_root :: "real \<Rightarrow> root_finder" where
  "fixed_root phi0 = (\<lambda>f lo hi sec. Inr (phi0, sec))"

section \<open>Tip loss and the angle of attack\<close>

lemma bind_r_simps [simp]:
  "bind_r (Inl e) f = Inl e"
  "bind_r (Inr x) f = f x"
  by (simp_all add: bind_r_def)

lemma exp_ge_m1 [simp]: "- 1 \<le> exp (x::real)"
proof -
  have "0 \<le> exp x" by simp
  then show ?thesis by linarith
qed

lemma exp_500_le: "exp (500::real) \<le> dbl_max"
proof -
  have "exp (1::real) \<le> 4" using exp_le by simp
  then have "exp (1::real) ^ 500 \<le> 4 ^ 500" by (intro power_mono) simp_all
  moreover have "exp (500::real) = exp 1 ^ 500" by (simp add: exp_of_nat_mult[symmetric])
  moreover have "(4::real) ^ 500 = 2 ^ 1000" 
  proof -
    have "(4::real) = 2 ^ 2" by simp
    then have "(4::real) ^ 500 = (2 ^ 2) ^ 500" by simp
    also have "\<dots> = 2 ^ 1000" by (simp add: power_mult[symmetric] del: power_mult)
    finally show ?thesis .
  qed
  moreover have "(2::real) ^ 1000 \<le> dbl_max"
  proof -
    have "(2::real) ^ 1000 \<le> 1 * 2 ^ 1023" by (simp add: power_increasing)
    also have "\<dots> \<le> dbl_max" unfolding dbl_max_def by (intro mult_right_mono) simp_all
    finally show ?thesis .
  qed
  ultimately show ?thesis by linarith
qed

lemma py_exp_ok: "x \<le> 500 \<Longrightarrow> py_exp x = Inr (exp x)"
proof -
  assume "x \<le> 500"
  then have "exp x \<le> exp 500" by simp
  with exp_500_le have "exp x \<le> dbl_max" by linarith
  then show ?thesis by (simp add: py_exp_def)
qed

lemma prandtl_factor_no_guard:
  "\<not> - f > 500 \<Longrightarrow> prandtl_factor f = Inr (2 * arccos (min 1 (exp (- f))) / pi)"
proof -
  assume g: "\<not> - f > 500"
  have "- 1 \<le> min 1 (exp (- f))" using exp_ge_zero[of "- f"] unfolding min_def by (auto intro: order_trans[of "- 1" 0])
  then show ?thesis using g by (simp add: prandtl_factor_def py_exp_ok py_acos_def)
qed

lemma limit_formula: "(prandtl_unguarded \<longlongrightarrow> 1) at_top"
proof -
  have e: "((\<lambda>f::real. exp (- f)) \<longlongrightarrow> 0) at_top"
    by (rule filterlim_compose[OF exp_at_bot filterlim_uminus_at_bot_at_top])
  have m: "((\<lambda>f::real. min 1 (exp (- f))) \<longlongrightarrow> min 1 0) at_top"
    by (intro tendsto_min tendsto_const e)
  have "isCont arccos (0::real)" by (rule isCont_arccos) simp_all
  then have a: "((\<lambda>f::real. arccos (min 1 (exp (- f)))) \<longlongrightarrow> arccos 0) at_top"
    using m by (intro isCont_tendsto_compose[where g = arccos]) simp_all
  have "((\<lambda>f::real. 2 * arccos (min 1 (exp (- f))) / pi) \<longlongrightarrow> 2 * arccos 0 / pi) at_top"
    by (intro tendsto_intros a) simp
  then show ?thesis unfolding prandtl_unguarded_def by (simp add: arccos_0)
qed


lemma prandtl_unguarded_range:
  assumes "0 \<le> f"
  shows "prandtl_factor f = Inr (2 * arccos (exp (- f)) / pi)"
    and "0 \<le> 2 * arccos (exp (- f)) / pi"
    and "2 * arccos (exp (- f)) / pi < 1"
    and "0 < 2 * arccos (exp (- f)) / pi \<longleftrightarrow> 0 < f"
proof -
  have e1: "exp (- f) \<le> 1" using assms by simp
  have e0: "0 < exp (- f)" by simp
  have "\<not> - f > 500" using assms by simp
  then show "prandtl_factor f = Inr (2 * arccos (exp (- f)) / pi)"
    using e1 by (simp add: prandtl_factor_no_guard min_def)
  have lb: "0 \<le> arccos (exp (- f))" using e1 e0 by (intro arccos_lbound) linarith+
  then show "0 \<le> 2 * arccos (exp (- f)) / pi" by simp
  have "arccos (exp (- f)) < arccos 0"
    using e0 e1 by (intro arccos_less_arccos) simp_all
  then have "arccos (exp (- f)) < pi / 2" by simp
  then have "2 * arccos (exp (- f)) < pi" by linarith
  then show "2 * arccos (exp (- f)) / pi < 1" by (simp add: divide_less_eq)
  have "0 < arccos (exp (- f)) \<longleftrightarrow> 0 < f"
  proof
    assume "0 < arccos (exp (- f))"
    then have "exp (- f) \<noteq> 1" by auto
    then show "0 < f" using assms by (cases "f = 0") auto
  next
    assume "0 < f"
    then have "exp (- f) < 1" by simp
    then have "arccos 1 < arccos (exp (- f))" using e0 by (intro arccos_less_arccos) simp_all
    then show "0 < arccos (exp (- f))" by simp
  qed
  then show "0 < 2 * arccos (exp (- f)) / pi \<longleftrightarrow> 0 < f" by (simp add: zero_less_divide_iff)
qed

lemma prandtl_val:
  assumes "0 < phi" "phi < pi" "0 < r" "1 \<le> nb" "0 \<le> dr"
  shows "\<exists>F. prandtl nb dr r phi = Inr F \<and> 0 \<le> F \<and> F < 1 \<and> (0 < F \<longleftrightarrow> 0 < dr)"
proof -
  let ?f = "of_int nb * dr / (2 * r * sin phi)"
  have s: "0 < sin phi" using assms by (simp add: sin_gt_zero)
  then have d: "0 < 2 * r * sin phi" using assms by simp
  have nb: "0 < (of_int nb :: real)" using assms by simp
  have f0: "0 \<le> ?f" using assms d nb by (intro divide_nonneg_pos mult_nonneg_nonneg) simp_all
  have "0 < ?f \<longleftrightarrow> 0 < of_int nb * dr" using d by (simp add: zero_less_divide_iff)
  moreover have "0 < of_int nb * dr \<longleftrightarrow> 0 < dr" using nb by (simp add: zero_less_mult_iff)
  ultimately have fpos: "0 < ?f \<longleftrightarrow> 0 < dr" by simp
  have "2 * r * sin phi \<noteq> 0" using d by linarith
  then have "py_div (of_int nb * dr) (2 * r * sin phi) = Inr ?f" unfolding py_div_def by (rule if_not_P)
  then have "prandtl nb dr r phi = prandtl_factor ?f" by (simp add: prandtl_def)
  then show ?thesis using prandtl_unguarded_range[OF f0] fpos by auto
qed

lemma tip_loss_val:
  assumes "0 < phi" "phi < pi" "1 \<le> n_blades rot" "0 < sec_radius sec"
    and "radius_hub rot \<le> sec_radius sec" "sec_radius sec \<le> blade_radius rot"
  shows "\<exists>F. tip_loss rot sec phi = Inr (F, sec\<lparr>sec_F := F\<rparr>) \<and> 0 \<le> F \<and> F < 1 \<and>
           (0 < F \<longleftrightarrow> radius_hub rot < sec_radius sec \<and> sec_radius sec < blade_radius rot)"
proof -
  obtain Ft where t: "prandtl (n_blades rot) (blade_radius rot - sec_radius sec) (sec_radius sec) phi = Inr Ft"
    "0 \<le> Ft" "Ft < 1" "0 < Ft \<longleftrightarrow> 0 < blade_radius rot - sec_radius sec"
    using prandtl_val[of phi "sec_radius sec" "n_blades rot" "blade_radius rot - sec_radius sec"] assms
    by auto
  obtain Fh where h: "prandtl (n_blades rot) (sec_radius sec - radius_hub rot) (sec_radius sec) phi = Inr Fh"
    "0 \<le> Fh" "Fh < 1" "0 < Fh \<longleftrightarrow> 0 < sec_radius sec - radius_hub rot"
    using prandtl_val[of phi "sec_radius sec" "n_blades rot" "sec_radius sec - radius_hub rot"] assms
    by auto
  have v: "tip_loss rot sec phi = Inr (Ft * Fh, sec\<lparr>sec_F := Ft * Fh\<rparr>)"
    using assms(1) t(1) h(1) by (simp add: tip_loss_def)
  have a: "0 \<le> Ft * Fh" using t h by simp
  have "Ft * Fh \<le> Ft * 1" using t h by (intro mult_left_mono) simp_all
  then have b: "Ft * Fh < 1" using t by linarith
  have c: "0 < Ft * Fh \<longleftrightarrow> radius_hub rot < sec_radius sec \<and> sec_radius sec < blade_radius rot"
    using t h by (auto simp: zero_less_mult_iff)
  show ?thesis using v a b c by blast
qed


lemma section_init_scenario:
  "r \<noteq> 0 \<Longrightarrow> section_init scenario_airfoil r 0.4 (10 * pi / 180) 0.05 scenario_geometry ''rotor''
     = Inr (scenario_section r)"
  by (simp add: section_init_def section_precalc_def py_div_def scenario_geometry_def
      scenario_section_def mode_C_def)

text \<open>
  Claim C2, as the code has it. For a section whose radius lies in
  \<open>[radius_hub, blade_radius]\<close> and is positive, a blade count of at least 1 and
  \<open>phi\<close> in \<open>(0, pi)\<close>, \<^verbatim>\<open>tip_loss\<close> returns and stores a factor \<open>F\<close> with
  \<open>0 \<le> F \<le> 1\<close>, and \<open>F\<close> is positive exactly when the radius lies strictly between
  the hub radius and the blade radius: at either end of the blade the factor is 0. For
  \<open>phi = 0\<close> the factor is exactly 1.
\<close>

theorem tip_loss_range:
  assumes "0 < phi" and "phi < pi" and "1 \<le> n_blades rot" and "0 < sec_radius sec"
    and "radius_hub rot \<le> sec_radius sec" and "sec_radius sec \<le> blade_radius rot"
  shows "(\<exists>F. tip_loss rot sec phi = Inr (F, sec\<lparr>sec_F := F\<rparr>) \<and> 0 \<le> F \<and> F \<le> 1 \<and>
            (0 < F \<longleftrightarrow> radius_hub rot < sec_radius sec \<and> sec_radius sec < blade_radius rot))
       \<and> tip_loss rot sec 0 = Inr (1, sec\<lparr>sec_F := 1\<rparr>)"
proof -
  obtain F where "tip_loss rot sec phi = Inr (F, sec\<lparr>sec_F := F\<rparr>)" "0 \<le> F" "F < 1"
    "0 < F \<longleftrightarrow> radius_hub rot < sec_radius sec \<and> sec_radius sec < blade_radius rot"
    using tip_loss_val[OF assms] by auto
  then have "\<exists>F. tip_loss rot sec phi = Inr (F, sec\<lparr>sec_F := F\<rparr>) \<and> 0 \<le> F \<and> F \<le> 1 \<and>
      (0 < F \<longleftrightarrow> radius_hub rot < sec_radius sec \<and> sec_radius sec < blade_radius rot)"
    by (intro exI[of _ F]) simp
  moreover have "tip_loss rot sec 0 = Inr (1, sec\<lparr>sec_F := 1\<rparr>)"
    by (simp add: tip_loss_def)
  ultimately show ?thesis by simp
qed

theorem tip_loss_range_witness:
  "(\<exists>F. tip_loss scenario_geometry (scenario_section 0.3) (pi / 2)
          = Inr (F, (scenario_section 0.3)\<lparr>sec_F := F\<rparr>) \<and> 0 < F \<and> F \<le> 1)
   \<and> tip_loss scenario_geometry (scenario_section 0.3) 0
       = Inr (1, (scenario_section 0.3)\<lparr>sec_F := 1\<rparr>)"
proof -
  have g: "1 \<le> n_blades scenario_geometry" "0 < sec_radius (scenario_section 0.3)"
    "radius_hub scenario_geometry \<le> sec_radius (scenario_section 0.3)"
    "sec_radius (scenario_section 0.3) \<le> blade_radius scenario_geometry"
    "radius_hub scenario_geometry < sec_radius (scenario_section 0.3)"
    "sec_radius (scenario_section 0.3) < blade_radius scenario_geometry"
    by (simp_all add: scenario_geometry_def scenario_section_def)
  have p: "0 < pi / 2" "pi / 2 < pi" by simp_all
  show ?thesis
    using tip_loss_range[OF p g(1) g(2) g(3) g(4)] g(5) g(6) by auto
qed

text \<open>
  The claim C2 as stated fails at the blade tip: for a section at
  \<open>radius = blade_radius\<close> the tip gap is 0, so \<open>f = 0\<close>, \<open>exp(-f) = 1\<close> and
  \<open>acos(1) = 0\<close>: the factor is 0, outside \<open>(0, 1]\<close>.
\<close>

theorem tip_loss_zero_at_tip:
  "tip_loss scenario_geometry (scenario_section 0.5) (pi / 2)
     = Inr (0, (scenario_section 0.5)\<lparr>sec_F := 0\<rparr>)"
proof -
  have "prandtl_factor 0 = Inr 0"
    using prandtl_unguarded_range(1)[of 0] by simp
  then have t: "prandtl 2 0 0.5 (pi / 2) = Inr 0" by (simp add: prandtl_def py_div_def)
  obtain Fh where h: "prandtl 2 (0.5 - 0.1) 0.5 (pi / 2) = Inr Fh"
    using prandtl_val[of "pi / 2" "0.5" 2 "0.5 - 0.1"] by auto
  show ?thesis using t h
    by (simp add: tip_loss_def scenario_geometry_def scenario_section_def)
qed


lemma exp_1500_gt: "dbl_max < exp (1500::real)"
proof -
  have "(2::real) \<le> exp 1" using exp_ge_add_one_self[of "1::real"] by simp
  then have "(2::real) ^ 1500 \<le> exp 1 ^ 1500" by (intro power_mono) simp_all
  moreover have "exp (1500::real) = exp 1 ^ 1500" by (simp add: exp_of_nat_mult[symmetric])
  moreover have "dbl_max < 2 ^ 1500"
  proof -
    have "dbl_max \<le> 2 * 2 ^ 1023" unfolding dbl_max_def by (intro mult_right_mono) simp_all
    also have "\<dots> = (2::real) ^ 1024" by simp
    also have "\<dots> < 2 ^ 1500" by (intro power_strict_increasing) simp_all
    finally show ?thesis .
  qed
  ultimately show ?thesis by linarith
qed

lemma prandtl_factor_no_overflow: "prandtl_factor f \<noteq> Inl OverflowError"
proof (cases "- f > 500")
  case True
  then show ?thesis by (simp add: prandtl_factor_def)
next
  case False
  then show ?thesis by (simp add: prandtl_factor_no_guard)
qed

lemma prandtl_unguarded_nonpos: "f \<le> 0 \<Longrightarrow> prandtl_unguarded f = 0"
  by (simp add: prandtl_unguarded_def min_def)

text \<open>
  Claim C4. For every \<open>f\<close> with \<open>-f > 500\<close> the sub-factor of \<^verbatim>\<open>prandtl\<close> is
  exactly 1, whatever \<^verbatim>\<open>exp\<close> would do there: \<^verbatim>\<open>prandtl\<close> never raises
  \<^verbatim>\<open>OverflowError\<close>. The value 1 is the limit of the unguarded formula
  \<open>2 * acos(min(1, exp(-f))) / pi\<close> as \<open>f\<close> tends to infinity.
\<close>

theorem prandtl_overflow_guard:
  assumes "- f > 500"
  shows "prandtl_factor f = Inr 1
       \<and> (py_div (of_int nb * dr) (2 * r * sin phi) = Inr f \<longrightarrow> prandtl nb dr r phi = Inr 1)
       \<and> (\<forall>g. prandtl_factor g \<noteq> Inl OverflowError)
       \<and> (prandtl_unguarded \<longlongrightarrow> 1) at_top"
  using assms limit_formula prandtl_factor_no_overflow
  by (simp add: prandtl_factor_def prandtl_def)

theorem prandtl_overflow_guard_witness:
  "prandtl_factor (- 1500) = Inr 1 \<and> py_exp (- (- 1500)) = Inl OverflowError
   \<and> prandtl 3000 1 1 (- pi / 2) = Inr 1"
proof -
  have g: "- (- 1500 :: real) > 500" by simp
  have d: "py_div (of_int 3000 * 1) (2 * 1 * sin (- pi / 2)) = Inr (- 1500)"
    by (simp add: py_div_def)
  have "py_exp (- (- 1500)) = Inl OverflowError"
    using exp_1500_gt by (simp add: py_exp_def)
  then show ?thesis
    using prandtl_overflow_guard[OF g, of 3000 1 1 "- pi / 2"] d by simp
qed

lemma section_init_fields:
  assumes "section_init af r w p c rot mode = Inr s"
  shows "sec_C s = mode_C mode" and "sec_pitch s = p" and "sec_airfoil s = af"
  using assms
  by (auto simp: section_init_def section_precalc_def py_div_def split: if_splits)

text \<open>
  Claim C8. For the same pitch and \<open>phi\<close>, the angle of attack of a section built
  in propeller mode (\<open>C = 1\<close>) is the negation of the angle of attack of the section
  built in turbine mode (\<open>C = -1\<close>); \<^verbatim>\<open>airfoil_forces\<close> looks the coefficients up
  at these angles.
\<close>

theorem alpha_sign_flip:
  assumes "section_init af r w p c rot mode = Inr s_prop" and "mode \<noteq> ''turbine''"
    and "section_init af r w p c rot ''turbine'' = Inr s_turb"
  shows "angle_of_attack s_prop phi = - angle_of_attack s_turb phi
       \<and> angle_of_attack s_prop phi = p - phi
       \<and> airfoil_forces s_prop phi =
           (af_Cl af (p - phi) * cos phi - af_Cd af (p - phi) * sin phi,
            af_Cl af (p - phi) * sin phi + af_Cd af (p - phi) * cos phi)
       \<and> airfoil_forces s_turb phi =
           (af_Cl af (- (p - phi)) * cos phi + af_Cd af (- (p - phi)) * sin phi,
            af_Cl af (- (p - phi)) * sin phi - af_Cd af (- (p - phi)) * cos phi)"
  using section_init_fields[OF assms(1)] section_init_fields[OF assms(3)] assms(2)
  by (simp add: angle_of_attack_def airfoil_forces_def mode_C_def Let_def)

theorem alpha_sign_flip_witness:
  "angle_of_attack (scenario_section 0.3) 0.2
     = - angle_of_attack ((scenario_section 0.3)\<lparr>sec_C := - 1\<rparr>) 0.2
   \<and> angle_of_attack (scenario_section 0.3) 0.2 = 10 * pi / 180 - 0.2"
proof -
  have a: "section_init scenario_airfoil 0.3 0.4 (10 * pi / 180) 0.05 scenario_geometry ''rotor''
     = Inr (scenario_section 0.3)"
    using section_init_scenario[of "0.3"] by simp
  have b: "section_init scenario_airfoil 0.3 0.4 (10 * pi / 180) 0.05 scenario_geometry ''turbine''
     = Inr ((scenario_section 0.3)\<lparr>sec_C := - 1\<rparr>)"
    by (simp add: section_init_def section_precalc_def py_div_def scenario_geometry_def
        scenario_section_def mode_C_def)
  have c: "''rotor'' \<noteq> ''turbine''" by simp
  show ?thesis using alpha_sign_flip[OF a c b, of "0.2"] by simp
qed

section \<open>Facts about a section\<close>

lemma tip_loss_state:
  assumes "tip_loss rot sec phi = Inr (F, s1)"
  shows "s1 = sec\<lparr>sec_F := F\<rparr>"
  using assms by (auto simp: tip_loss_def bind_r_def split: sum.splits if_splits)

lemma airfoil_forces_F [simp]: "airfoil_forces (sec\<lparr>sec_F := F\<rparr>) phi = airfoil_forces sec phi"
  by (simp add: airfoil_forces_def angle_of_attack_def)

lemma py_div_Inr: "py_div x y = Inr q \<longleftrightarrow> y \<noteq> 0 \<and> q = x / y"
  by (auto simp: py_div_def)

lemma py_sqrt_Inr: "0 \<le> x \<Longrightarrow> py_sqrt x = Inr (sqrt x)"
  by (simp add: py_sqrt_def)

lemma bind_r_Inr: "bind_r m f = Inr y \<longleftrightarrow> (\<exists>x. m = Inr x \<and> f x = Inr y)"
  by (cases m) simp_all

lemma induction_factors_Inr:
  "induction_factors rot sec phi = Inr ((a, ap), s1) \<longleftrightarrow>
     (\<exists>F. tip_loss rot sec phi = Inr (F, s1) \<and>
       sec_sigma sec * fst (airfoil_forces sec phi) \<noteq> 0 \<and>
       sec_sigma sec * snd (airfoil_forces sec phi) \<noteq> 0 \<and>
       4 * F * (sin phi)\<^sup>2 / (sec_sigma sec * fst (airfoil_forces sec phi)) - of_int (sec_C sec) \<noteq> 0 \<and>
       4 * F * sin phi * cos phi / (sec_sigma sec * snd (airfoil_forces sec phi)) + of_int (sec_C sec) \<noteq> 0 \<and>
       a = 1 / (4 * F * (sin phi)\<^sup>2 / (sec_sigma sec * fst (airfoil_forces sec phi)) - of_int (sec_C sec)) \<and>
       ap = 1 / (4 * F * sin phi * cos phi / (sec_sigma sec * snd (airfoil_forces sec phi)) + of_int (sec_C sec)))"
proof (cases "tip_loss rot sec phi")
  case (Inl e)
  then show ?thesis by (simp add: induction_factors_def)
next
  case (Inr p)
  obtain F s where p: "p = (F, s)" by (cases p)
  have s: "s = sec\<lparr>sec_F := F\<rparr>" using Inr p tip_loss_state by blast
  show ?thesis
    unfolding induction_factors_def Let_def Inr p s
    by (auto simp: bind_r_Inr py_div_Inr split_beta)
qed

lemma forces_Inr:
  "forces rot sec phi v om fl = Inr ((dT, dQ), s') \<longleftrightarrow>
     (\<exists>a ap s1 U. induction_factors rot sec phi = Inr ((a, ap), s1) \<and> mu fl \<noteq> 0 \<and>
        U = sqrt (((1 + of_int (sec_C sec) * a) * v)\<^sup>2
                  + ((1 - of_int (sec_C sec) * ap) * om * sec_radius sec)\<^sup>2) \<and>
        dT = sec_sigma sec * pi * rho fl * U\<^sup>2 * fst (airfoil_forces sec phi) * sec_radius sec
               * sec_width sec \<and>
        dQ = sec_sigma sec * pi * rho fl * U\<^sup>2 * snd (airfoil_forces sec phi) * (sec_radius sec)\<^sup>2
               * sec_width sec \<and>
        s' = s1\<lparr>sec_Re := rho fl * U * sec_chord sec / mu fl, sec_dT := dT, sec_dQ := dQ\<rparr>)"
proof (cases "induction_factors rot sec phi")
  case (Inl e)
  then show ?thesis by (simp add: forces_def)
next
  case (Inr p)
  obtain a ap s1 where p: "p = ((a, ap), s1)" by (cases p) auto
  obtain F where s1: "s1 = sec\<lparr>sec_F := F\<rparr>"
    using Inr p induction_factors_Inr tip_loss_state by blast
  show ?thesis
    unfolding forces_def Let_def Inr p s1
    by (auto simp: bind_r_Inr py_div_Inr py_sqrt_Inr split_beta)
qed

text \<open>What \<^verbatim>\<open>forces\<close> leaves on the section.\<close>

lemma forces_fields:
  assumes "forces rot sec phi v om fl = Inr ((dT, dQ), s')"
  shows "sec_dT s' = dT" and "sec_dQ s' = dQ"
    and "sec_Cl s' = sec_Cl sec" and "sec_Cd s' = sec_Cd sec"
    and "sec_a s' = sec_a sec" and "sec_ap s' = sec_ap sec"
    and "sec_alpha s' = sec_alpha sec"
    and "sec_radius s' = sec_radius sec" and "sec_chord s' = sec_chord sec"
    and "sec_pitch s' = sec_pitch sec"
    and "\<exists>s1. tip_loss rot sec phi = Inr (sec_F s', s1)"
proof -
  obtain a ap s1 where i: "induction_factors rot sec phi = Inr ((a, ap), s1)"
    and s': "\<exists>Re. s' = s1\<lparr>sec_Re := Re, sec_dT := dT, sec_dQ := dQ\<rparr>"
    using assms unfolding forces_Inr by blast
  obtain F where t: "tip_loss rot sec phi = Inr (F, s1)" using i induction_factors_Inr by blast
  then have s1: "s1 = sec\<lparr>sec_F := F\<rparr>" by (rule tip_loss_state)
  show "sec_dT s' = dT" "sec_dQ s' = dQ" "sec_Cl s' = sec_Cl sec" "sec_Cd s' = sec_Cd sec"
    "sec_a s' = sec_a sec" "sec_ap s' = sec_ap sec" "sec_alpha s' = sec_alpha sec"
    "sec_radius s' = sec_radius sec" "sec_chord s' = sec_chord sec" "sec_pitch s' = sec_pitch sec"
    using s' s1 by auto
  show "\<exists>s1. tip_loss rot sec phi = Inr (sec_F s', s1)" using s' s1 t by auto
qed

text \<open>
  The signs of the forces of a propeller section with positive inflow, when the
  coefficient \<open>CQ\<close> is positive and \<open>kappa\<close> misses the pole of \<open>a\<close>.
\<close>

lemma forces_sign:
  assumes C: "sec_C sec = 1" and sg: "0 < sec_sigma sec" and r: "0 < sec_radius sec"
    and w: "0 < sec_width sec"
    and t: "tip_loss rot sec phi = Inr (F, sec\<lparr>sec_F := F\<rparr>)" and F: "0 < F"
    and sn: "0 < sin phi" and cs: "0 \<le> cos phi"
    and CT: "fst (airfoil_forces sec phi) = CT"
    and CQ: "snd (airfoil_forces sec phi) = CQ" and CQp: "0 < CQ"
    and k: "CT < 0 \<or> (0 < CT \<and> sec_sigma sec * CT < 4 * F * (sin phi)\<^sup>2)"
    and v: "0 < v" and rh: "0 < rho fl" and mu: "mu fl \<noteq> 0"
  shows "\<exists>dT dQ Re. forces rot sec phi v om fl
            = Inr ((dT, dQ), sec\<lparr>sec_F := F, sec_Re := Re, sec_dT := dT, sec_dQ := dQ\<rparr>)
          \<and> (0 < CT \<longrightarrow> 0 < dT) \<and> (CT < 0 \<longrightarrow> dT < 0) \<and> 0 < dQ"
proof -
  define kappa where "kappa = 4 * F * (sin phi)\<^sup>2 / (sec_sigma sec * CT)"
  define kappap where "kappap = 4 * F * sin phi * cos phi / (sec_sigma sec * CQ)"
  define a where "a = 1 / (kappa - 1)"
  define ap where "ap = 1 / (kappap + 1)"
  define U where "U = sqrt (((1 + a) * v)\<^sup>2 + ((1 - ap) * om * sec_radius sec)\<^sup>2)"
  have num: "0 < 4 * F * (sin phi)\<^sup>2" using F sn by simp
  have CT0: "CT \<noteq> 0" using k by auto
  have kap: "kappa < 0 \<or> 1 < kappa"
  proof (cases "CT < 0")
    case True
    then have "sec_sigma sec * CT < 0" using sg by (simp add: mult_pos_neg)
    then have "kappa < 0" unfolding kappa_def using num by (simp add: divide_pos_neg)
    then show ?thesis by simp
  next
    case False
    then have p: "0 < CT" "sec_sigma sec * CT < 4 * F * (sin phi)\<^sup>2" using k by auto
    then have "0 < sec_sigma sec * CT" using sg by simp
    then have "1 < kappa" unfolding kappa_def using p(2) by (simp add: less_divide_eq)
    then show ?thesis by simp
  qed
  then have k1: "kappa - 1 \<noteq> 0" by auto
  have a1: "0 < 1 + a"
  proof -
    have "1 + a = kappa / (kappa - 1)" unfolding a_def using k1 by (simp add: field_simps)
    moreover have "0 < kappa / (kappa - 1)" using kap by (auto simp: zero_less_divide_iff)
    ultimately show ?thesis by simp
  qed
  have "0 \<le> 4 * F * sin phi * cos phi" using F sn cs by simp
  moreover have "0 < sec_sigma sec * CQ" using sg CQp by simp
  ultimately have kp: "0 \<le> kappap" unfolding kappap_def by simp
  then have kp1: "kappap + 1 \<noteq> 0" by linarith
  have i: "induction_factors rot sec phi = Inr ((a, ap), sec\<lparr>sec_F := F\<rparr>)"
    unfolding induction_factors_Inr
    using t CT CQ CT0 CQp sg k1 kp1 C by (auto simp: kappa_def kappap_def a_def ap_def)
  have "0 < ((1 + a) * v)\<^sup>2" using a1 v by simp
  moreover have "0 \<le> ((1 - ap) * om * sec_radius sec)\<^sup>2" by simp
  ultimately have pos: "0 < ((1 + a) * v)\<^sup>2 + ((1 - ap) * om * sec_radius sec)\<^sup>2" by linarith
  then have U2: "0 < U\<^sup>2" unfolding U_def by simp
  define dT where "dT = sec_sigma sec * pi * rho fl * U\<^sup>2 * CT * sec_radius sec * sec_width sec"
  define dQ where "dQ = sec_sigma sec * pi * rho fl * U\<^sup>2 * CQ * (sec_radius sec)\<^sup>2 * sec_width sec"
  have f: "forces rot sec phi v om fl
      = Inr ((dT, dQ), sec\<lparr>sec_F := F, sec_Re := rho fl * U * sec_chord sec / mu fl,
                            sec_dT := dT, sec_dQ := dQ\<rparr>)"
    unfolding forces_Inr using i mu C CT CQ by (simp add: U_def dT_def dQ_def)
  have c: "0 < sec_sigma sec * pi * rho fl * U\<^sup>2" using sg rh U2 by simp
  have rw: "0 < sec_radius sec * sec_width sec" using r w by simp
  have dTe: "dT = (sec_sigma sec * pi * rho fl * U\<^sup>2) * (sec_radius sec * sec_width sec) * CT"
    unfolding dT_def by (simp add: mult_ac)
  have crw: "0 < (sec_sigma sec * pi * rho fl * U\<^sup>2) * (sec_radius sec * sec_width sec)"
    using c rw by (rule mult_pos_pos)
  have p1: "0 < CT \<longrightarrow> 0 < dT" unfolding dTe using crw by (simp add: zero_less_mult_iff)
  have p2: "CT < 0 \<longrightarrow> dT < 0" unfolding dTe using crw by (simp add: mult_pos_neg)
  have p3: "0 < dQ" unfolding dQ_def using c CQp r w by simp
  show ?thesis using f p1 p2 p3 by blast
qed

section \<open>The forces of the concrete case\<close>

lemma arccos_half: "arccos (1 / 2) = pi / 3"
proof -
  have "arccos (cos (pi / 3)) = pi / 3" by (rule arccos_cos) simp_all
  then show ?thesis by (simp add: cos_60)
qed

lemma prandtl_factor_ge:
  assumes "1 \<le> f"
  shows "\<exists>F. prandtl_factor f = Inr F \<and> 2 / 3 \<le> F \<and> F < 1"
proof -
  have f0: "0 \<le> f" using assms by simp
  have "(2::real) \<le> exp 1" using exp_ge_add_one_self[of "1::real"] by simp
  also have "\<dots> \<le> exp f" using assms by simp
  finally have "2 \<le> exp f" .
  then have "1 / exp f \<le> 1 / 2" by (simp add: field_simps)
  then have e: "exp (- f) \<le> 1 / 2" by (simp add: exp_minus inverse_eq_divide)
  have "arccos (1 / 2) \<le> arccos (exp (- f))"
    using e by (intro arccos_le_arccos) simp_all
  then have "pi / 3 \<le> arccos (exp (- f))" by (simp add: arccos_half)
  then have "2 / 3 * pi \<le> 2 * arccos (exp (- f))" by simp
  then have "2 / 3 \<le> 2 * arccos (exp (- f)) / pi" by (simp add: le_divide_eq)
  then show ?thesis using prandtl_unguarded_range(1,3)[OF f0] by blast
qed

text \<open>
  The tip-loss factor of the section at radius 0.3 for \<open>phi = pi/6\<close>, on any rotor
  with the geometry of the scenario.
\<close>

lemma scenario_tip_loss:
  assumes "n_blades rot = 2" and "blade_radius rot = 1 / 2" and "radius_hub rot = 1 / 10"
  shows "\<exists>F. tip_loss rot (scenario_section 0.3) (pi / 6)
            = Inr (F, (scenario_section 0.3)\<lparr>sec_F := F\<rparr>) \<and> 4 / 9 \<le> F \<and> F < 1"
proof -
  let ?S = "scenario_section 0.3"
  have sr: "sec_radius ?S = 3 / 10" by (simp add: scenario_section_def)
  have d: "py_div (of_int 2 * (1 / 5)) (2 * (3 / 10) * sin (pi / 6)) = Inr (4 / 3)"
    by (simp add: py_div_def sin_30)
  obtain G where G: "prandtl_factor (4 / 3) = Inr G" "2 / 3 \<le> G" "G < 1"
    using prandtl_factor_ge[of "4 / 3"] by auto
  have p: "prandtl 2 (1 / 5) (3 / 10) (pi / 6) = Inr G"
    unfolding prandtl_def d using G(1) by simp
  have t: "prandtl (n_blades rot) (blade_radius rot - sec_radius ?S) (sec_radius ?S) (pi / 6) = Inr G"
    unfolding assms sr using p by simp
  have h: "prandtl (n_blades rot) (sec_radius ?S - radius_hub rot) (sec_radius ?S) (pi / 6) = Inr G"
    unfolding assms sr using p by simp
  have v: "tip_loss rot ?S (pi / 6) = Inr (G * G, ?S\<lparr>sec_F := G * G\<rparr>)"
    by (simp add: tip_loss_def Let_def t h)
  have "2 / 3 * (2 / 3) \<le> G * G" using G by (intro mult_mono) simp_all
  then have lo: "4 / 9 \<le> G * G" by simp
  have "G * G \<le> G * 1" using G by (intro mult_left_mono) simp_all
  then have hi: "G * G < 1" using G by linarith
  show ?thesis using v lo hi by blast
qed

lemma sqrt3_bounds: "1 < sqrt 3" "sqrt 3 < 2"
proof -
  show "1 < sqrt 3" by simp
  have "sqrt 3 < sqrt 4" by (intro real_sqrt_less_mono) simp
  then show "sqrt 3 < 2" by simp
qed

lemma scenario_forces:
  assumes "n_blades rot = 2" and "blade_radius rot = 1 / 2" and "radius_hub rot = 1 / 10"
    and "0 < v"
  shows "\<exists>dT dQ Re F. forces rot (scenario_section 0.3) (pi / 6) v om scenario_fluid
            = Inr ((dT, dQ), (scenario_section 0.3)\<lparr>sec_F := F, sec_Re := Re, sec_dT := dT,
                                                   sec_dQ := dQ\<rparr>)
          \<and> 0 < dT \<and> 0 < dQ"
proof -
  obtain F where F: "tip_loss rot (scenario_section 0.3) (pi / 6)
      = Inr (F, (scenario_section 0.3)\<lparr>sec_F := F\<rparr>)" "4 / 9 \<le> F" "F < 1"
    using scenario_tip_loss[OF assms(1-3)] by auto
  define CT :: real where "CT = sqrt 3 / 4 - 1 / 100"
  define CQ :: real where "CQ = 1 / 4 + sqrt 3 / 100"
  have af: "fst (airfoil_forces (scenario_section 0.3) (pi / 6)) = CT"
    "snd (airfoil_forces (scenario_section 0.3) (pi / 6)) = CQ"
    by (simp_all add: airfoil_forces_def angle_of_attack_def scenario_section_def
        scenario_airfoil_def sin_30 cos_30 CT_def CQ_def)
  have CT0: "0 < CT" unfolding CT_def using sqrt3_bounds by linarith
  have CT1: "CT < 1 / 2" unfolding CT_def using sqrt3_bounds by linarith
  note CTp = CT0 CT1
  have CQp: "0 < CQ" unfolding CQ_def using sqrt3_bounds by linarith
  have sg: "sec_sigma (scenario_section 0.3) = 1 / (6 * pi)"
    by (simp add: scenario_section_def)
  have "12 \<le> 6 * pi" using pi_ge_two by simp
  then have s18: "1 / (6 * pi) \<le> 1 / 12" by (simp add: field_simps)
  have sp: "0 < 1 / (6 * pi)" by simp
  have "1 / (6 * pi) * CT \<le> 1 / 12 * (1 / 2)"
    using s18 CTp sp by (intro mult_mono) simp_all
  then have "1 / (6 * pi) * CT < F" using F(2) by linarith
  moreover have "4 * F * (sin (pi / 6))\<^sup>2 = F" by (simp add: sin_30 power2_eq_square)
  ultimately have k: "sec_sigma (scenario_section 0.3) * CT < 4 * F * (sin (pi / 6))\<^sup>2"
    unfolding sg by (simp only:)
  have "\<exists>dT dQ Re. forces rot (scenario_section 0.3) (pi / 6) v om scenario_fluid
      = Inr ((dT, dQ), (scenario_section 0.3)\<lparr>sec_F := F, sec_Re := Re, sec_dT := dT,
                                             sec_dQ := dQ\<rparr>)
      \<and> (0 < CT \<longrightarrow> 0 < dT) \<and> (CT < 0 \<longrightarrow> dT < 0) \<and> 0 < dQ"
  proof (rule forces_sign[OF _ _ _ _ F(1) _ _ _ af(1) af(2) CQp _ assms(4)])
    show "sec_C (scenario_section 0.3) = 1" by (simp add: scenario_section_def)
    show "0 < sec_sigma (scenario_section 0.3)" by (simp add: sg)
    show "0 < sec_radius (scenario_section 0.3)" by (simp add: scenario_section_def)
    show "0 < sec_width (scenario_section 0.3)" by (simp add: scenario_section_def)
    show "0 < F" using F(2) by simp
    show "0 < sin (pi / 6)" by (simp add: sin_30)
    show "0 \<le> cos (pi / 6)" by (simp add: cos_30)
    show "CT < 0 \<or> 0 < CT \<and> sec_sigma (scenario_section 0.3) * CT < 4 * F * (sin (pi / 6))\<^sup>2"
      using CTp k by simp
    show "0 < rho scenario_fluid" by (simp add: scenario_fluid_def)
    show "mu scenario_fluid \<noteq> 0" by (simp add: scenario_fluid_def)
  qed
  then show ?thesis using CTp by blast
qed

text \<open>
  Claim C5 fails on the code: \<^verbatim>\<open>forces\<close> assigns \<^verbatim>\<open>Re\<close>, \<^verbatim>\<open>dT\<close> and \<^verbatim>\<open>dQ\<close>, and
  \<^verbatim>\<open>tip_loss\<close> assigns \<^verbatim>\<open>F\<close>, but nothing assigns \<^verbatim>\<open>self.Cl\<close> or \<^verbatim>\<open>self.Cd\<close>,
  and \<^verbatim>\<open>a\<close>, \<^verbatim>\<open>ap\<close> are locals of \<^verbatim>\<open>forces\<close>. In the scenario, after
  \<^verbatim>\<open>forces\<close> at \<open>phi = pi/6\<close> the section still holds \<open>Cl = Cd = 0\<close> and
  \<open>a = ap = 0\<close>, while the airfoil gave \<open>Cl = 0.5\<close> and \<open>Cd = 0.02\<close>; the summary
  table reports the zeros.
\<close>

theorem forces_leaves_Cl_Cd:
  "\<exists>dT dQ s'. forces scenario_geometry (scenario_section 0.3) (pi / 6) 10 (100 * pi) scenario_fluid
                 = Inr ((dT, dQ), s')
     \<and> sec_dT s' = dT \<and> sec_dQ s' = dQ \<and> 0 < dT \<and> 0 < dQ
     \<and> sec_Cl s' = 0 \<and> sec_Cd s' = 0 \<and> sec_a s' = 0 \<and> sec_ap s' = 0
     \<and> af_Cl (sec_airfoil s') (angle_of_attack s' (pi / 6)) = 0.5
     \<and> af_Cd (sec_airfoil s') (angle_of_attack s' (pi / 6)) = 0.02
     \<and> map_of (sections_dataframe (scenario_geometry\<lparr>sections := [s']\<rparr>)) ''Cl'' = Some [0]
     \<and> map_of (sections_dataframe (scenario_geometry\<lparr>sections := [s']\<rparr>)) ''Cd'' = Some [0]"
proof -
  have g: "n_blades scenario_geometry = 2" "blade_radius scenario_geometry = 1 / 2"
    "radius_hub scenario_geometry = 1 / 10"
    by (simp_all add: scenario_geometry_def)
  obtain dT dQ Re F where f:
    "forces scenario_geometry (scenario_section 0.3) (pi / 6) 10 (100 * pi) scenario_fluid
       = Inr ((dT, dQ), (scenario_section 0.3)\<lparr>sec_F := F, sec_Re := Re, sec_dT := dT,
                                              sec_dQ := dQ\<rparr>)"
    "0 < dT" "0 < dQ"
    using scenario_forces[OF g, of 10 "100 * pi"] by auto
  show ?thesis
    apply (rule exI[of _ dT], rule exI[of _ dQ])
    apply (rule exI[of _ "(scenario_section 0.3)\<lparr>sec_F := F, sec_Re := Re, sec_dT := dT,
                                              sec_dQ := dQ\<rparr>"])
    using f
    apply (simp add: scenario_section_def scenario_airfoil_def sections_dataframe_def columns_def)
    done
qed

section \<open>The sums of solve\<close>

lemma solve_loop_sums:
  assumes "solve_loop bisect sname fl rot om v r secs T Q = Inr ((T', Q'), secs')"
  shows "T' = T + sum_list (map sec_dT secs') \<and> Q' = Q + sum_list (map sec_dQ secs')
       \<and> list_all2 (\<lambda>sec sec'. \<exists>phi s1.
             find_phi bisect sname rot sec (section_inflow sec v r) om = Inr (phi, s1)
           \<and> forces rot s1 phi (section_inflow sec v r) om fl
               = Inr ((sec_dT sec', sec_dQ sec'), sec')) secs secs'"
  using assms
proof (induction secs arbitrary: T Q secs')
  case Nil
  then show ?case by simp
next
  case (Cons sec secs)
  let ?v = "section_inflow sec v r"
  from Cons.prems obtain phi s1 dT dQ s2 rest where
    fp: "find_phi bisect sname rot sec ?v om = Inr (phi, s1)"
    and fo: "forces rot s1 phi ?v om fl = Inr ((dT, dQ), s2)"
    and lp: "solve_loop bisect sname fl rot om v r secs (T + dT) (Q + dQ) = Inr ((T', Q'), rest)"
    and se: "secs' = s2 # rest"
    by (auto simp: Let_def bind_r_Inr)
  have d: "sec_dT s2 = dT" "sec_dQ s2 = dQ" using forces_fields(1,2)[OF fo] by simp_all
  from Cons.IH[OF lp] have ih:
    "T' = T + dT + sum_list (map sec_dT rest)" "Q' = Q + dQ + sum_list (map sec_dQ rest)"
    "list_all2 (\<lambda>sec sec'. \<exists>phi s1.
             find_phi bisect sname rot sec (section_inflow sec v r) om = Inr (phi, s1)
           \<and> forces rot s1 phi (section_inflow sec v r) om fl
               = Inr ((sec_dT sec', sec_dQ sec'), sec')) secs rest"
    by simp_all
  have "\<exists>phi s1. find_phi bisect sname rot sec ?v om = Inr (phi, s1)
      \<and> forces rot s1 phi ?v om fl = Inr ((sec_dT s2, sec_dQ s2), s2)"
    using fp fo d by auto
  then show ?case using ih se d by simp
qed

lemma solve_Inr:
  "solve bisect slv rot rpm v r = Inr (ret, rot') \<longleftrightarrow>
     (\<exists>T Q secs. solve_loop bisect (slv_solver slv) (slv_fluid slv) (rotor_precalc rot)
                   (rpm * 2 * pi / 60) v r (sections rot) 0 0 = Inr ((T, Q), secs)
        \<and> ret = [PFloat T, PFloat Q, PFloat (Q * (rpm * 2 * pi / 60))]
        \<and> rot' = (rotor_precalc rot)\<lparr>sections := secs\<rparr>)"
  by (auto simp: solve_def Let_def bind_r_Inr rotor_precalc_def)

lemma map_of_dataframe_dT:
  "map_of (sections_dataframe rot) ''dT'' = Some (map sec_dT (sections rot))"
  by (simp add: sections_dataframe_def columns_def)

text \<open>
  Claim C1, as the code has it. When \<^verbatim>\<open>solve\<close> returns, the rotor geometry has been
  recomputed from the diameter; every section was solved for \<open>phi\<close> and its forces
  computed with the inflow velocity \<open>v_inflow\<close> if its radius is below \<open>r_inflow\<close>
  and with 0 otherwise; and the value returned is exactly the tuple \<open>(T, Q, P)\<close> with
  \<open>T\<close> the sum of the \<open>dT\<close>, \<open>Q\<close> the sum of the \<open>dQ\<close> and \<open>P = Q * omega\<close>,
  \<open>omega = rpm * 2 * pi / 60\<close>. The tuple holds no per-section summary: the \<open>dT\<close>
  and \<open>dQ\<close> stay on the sections, where \<^verbatim>\<open>sections_dataframe\<close> reads them.
\<close>

theorem solve_returns:
  assumes "solve bisect slv rot rpm v_inflow r_inflow = Inr (ret, rot')"
  shows "\<exists>T Q. ret = [PFloat T, PFloat Q, PFloat (Q * (rpm * 2 * pi / 60))]
       \<and> T = sum_list (map sec_dT (sections rot'))
       \<and> Q = sum_list (map sec_dQ (sections rot'))
       \<and> map_of (sections_dataframe rot') ''dT'' = Some (map sec_dT (sections rot'))
       \<and> blade_radius rot' = 0.5 * diameter rot
       \<and> area rot' = pi * (0.5 * diameter rot)\<^sup>2
       \<and> list_all2 (\<lambda>sec sec'. \<exists>phi s1.
              find_phi bisect (slv_solver slv) (rotor_precalc rot) sec
                (if sec_radius sec < r_inflow then v_inflow else 0) (rpm * 2 * pi / 60)
                = Inr (phi, s1)
            \<and> forces (rotor_precalc rot) s1 phi
                (if sec_radius sec < r_inflow then v_inflow else 0) (rpm * 2 * pi / 60)
                (slv_fluid slv)
                = Inr ((sec_dT sec', sec_dQ sec'), sec'))
            (sections rot) (sections rot')"
proof -
  obtain T Q secs where
    lp: "solve_loop bisect (slv_solver slv) (slv_fluid slv) (rotor_precalc rot)
           (rpm * 2 * pi / 60) v_inflow r_inflow (sections rot) 0 0 = Inr ((T, Q), secs)"
    and ret: "ret = [PFloat T, PFloat Q, PFloat (Q * (rpm * 2 * pi / 60))]"
    and rot': "rot' = (rotor_precalc rot)\<lparr>sections := secs\<rparr>"
    using assms unfolding solve_Inr by blast
  have s: "sections rot' = secs" "blade_radius rot' = 0.5 * diameter rot"
    "area rot' = pi * (0.5 * diameter rot)\<^sup>2"
    by (simp_all add: rot' rotor_precalc_def Let_def)
  show ?thesis
    using solve_loop_sums[OF lp] ret s
    by (simp add: map_of_dataframe_dT section_inflow_def)
qed

lemma find_phi_fixed_root:
  "sname \<noteq> ''brute'' \<Longrightarrow> find_phi (fixed_root phi0) sname rot sec v om = Inr (phi0, sec)"
  by (simp add: find_phi_def fixed_root_def)

lemma solve_single:
  assumes "sections rot = [sec]" and "slv_solver slv \<noteq> ''brute''"
    and "forces (rotor_precalc rot) sec phi0 (section_inflow sec v r) (rpm * 2 * pi / 60)
           (slv_fluid slv) = Inr ((dT, dQ), s')"
  shows "solve (fixed_root phi0) slv rot rpm v r
           = Inr ([PFloat dT, PFloat dQ, PFloat (dQ * (rpm * 2 * pi / 60))],
                  (rotor_precalc rot)\<lparr>sections := [s']\<rparr>)"
  unfolding solve_Inr using assms by (simp add: find_phi_fixed_root Let_def)

lemma scenario_solve:
  assumes "slv_solver slv \<noteq> ''brute''" and "slv_fluid slv = scenario_fluid"
    and "0 < v" and "3 / 10 < r"
  shows "\<exists>dT dQ s'. solve (fixed_root (pi / 6)) slv scenario_rotor rpm v r
            = Inr ([PFloat dT, PFloat dQ, PFloat (dQ * (rpm * 2 * pi / 60))],
                   (rotor_precalc scenario_rotor)\<lparr>sections := [s']\<rparr>)
          \<and> 0 < dT \<and> 0 < dQ \<and> sec_dT s' = dT \<and> sec_dQ s' = dQ"
proof -
  have g: "n_blades (rotor_precalc scenario_rotor) = 2"
    "blade_radius (rotor_precalc scenario_rotor) = 1 / 2"
    "radius_hub (rotor_precalc scenario_rotor) = 1 / 10"
    by (simp_all add: rotor_precalc_def scenario_rotor_def scenario_geometry_def Let_def)
  have i: "section_inflow (scenario_section 0.3) v r = v"
    using assms(4) by (simp add: section_inflow_def scenario_section_def)
  have s: "sections scenario_rotor = [scenario_section 0.3]"
    by (simp add: scenario_rotor_def)
  obtain dT dQ Re F where f:
    "forces (rotor_precalc scenario_rotor) (scenario_section 0.3) (pi / 6) v (rpm * 2 * pi / 60)
       scenario_fluid
       = Inr ((dT, dQ), (scenario_section 0.3)\<lparr>sec_F := F, sec_Re := Re, sec_dT := dT,
                                              sec_dQ := dQ\<rparr>)"
    "0 < dT" "0 < dQ"
    using scenario_forces[OF g assms(3), of "rpm * 2 * pi / 60"] by auto
  have "forces (rotor_precalc scenario_rotor) (scenario_section 0.3) (pi / 6)
          (section_inflow (scenario_section 0.3) v r) (rpm * 2 * pi / 60) (slv_fluid slv)
       = Inr ((dT, dQ), (scenario_section 0.3)\<lparr>sec_F := F, sec_Re := Re, sec_dT := dT,
                                              sec_dQ := dQ\<rparr>)"
    using f(1) i assms(2) by simp
  from solve_single[OF s assms(1) this] f(2,3) show ?thesis by auto
qed

theorem solve_returns_witness:
  "\<exists>T Q. fst (projr (solve (fixed_root (pi / 6)) (scenario_solver False) scenario_rotor 3000 10 1))
            = [PFloat T, PFloat Q, PFloat (Q * (3000 * 2 * pi / 60))]
     \<and> T = sum_list (map sec_dT (sections (snd (projr
              (solve (fixed_root (pi / 6)) (scenario_solver False) scenario_rotor 3000 10 1)))))
     \<and> 0 < T"
proof -
  have a: "slv_solver (scenario_solver False) \<noteq> ''brute''"
    "slv_fluid (scenario_solver False) = scenario_fluid"
    by (simp_all add: scenario_solver_def)
  obtain dT dQ s' where s:
    "solve (fixed_root (pi / 6)) (scenario_solver False) scenario_rotor 3000 10 1
       = Inr ([PFloat dT, PFloat dQ, PFloat (dQ * (3000 * 2 * pi / 60))],
              (rotor_precalc scenario_rotor)\<lparr>sections := [s']\<rparr>)"
    "0 < dT"
    using scenario_solve[OF a, of 10 1 3000] by auto
  show ?thesis using solve_returns[OF s(1)] s by auto
qed

text \<open>
  The claim C1 as stated fails on the value returned: in the scenario \<^verbatim>\<open>solve\<close> returns,
  and what it returns is a tuple of three floats, none of them a table.
\<close>

theorem solve_returns_no_summary:
  "\<not> isl (solve (fixed_root (pi / 6)) (scenario_solver False) scenario_rotor 3000 10 1)
   \<and> map is_frame (fst (projr
        (solve (fixed_root (pi / 6)) (scenario_solver False) scenario_rotor 3000 10 1)))
       = [False, False, False]"
proof -
  have a: "slv_solver (scenario_solver False) \<noteq> ''brute''"
    "slv_fluid (scenario_solver False) = scenario_fluid"
    by (simp_all add: scenario_solver_def)
  obtain dT dQ s' where s:
    "solve (fixed_root (pi / 6)) (scenario_solver False) scenario_rotor 3000 10 1
       = Inr ([PFloat dT, PFloat dQ, PFloat (dQ * (3000 * 2 * pi / 60))],
              (rotor_precalc scenario_rotor)\<lparr>sections := [s']\<rparr>)"
    using scenario_solve[OF a, of 10 1 3000] by auto
  show ?thesis by (simp add: s)
qed

section \<open>run and the coaxial coupling\<close>

lemma solve_slv_cong:
  "slv_solver slv' = slv_solver slv \<Longrightarrow> slv_fluid slv' = slv_fluid slv
     \<Longrightarrow> solve bisect slv' = solve bisect slv"
  by (intro ext) (simp add: solve_def)

lemma solve_tuple:
  assumes "solve bisect slv rot rpm v r = Inr (ret, rot')"
  obtains T Q P where "ret = [PFloat T, PFloat Q, PFloat P]"
  using assms unfolding solve_Inr by blast

lemma slipstream_Inr:
  "slipstream slv = Inr (r_s, v_s) \<longleftrightarrow>
     rho (slv_fluid slv) * area (slv_rotor slv) \<noteq> 0
     \<and> 0 \<le> 2 * slv_T slv / (rho (slv_fluid slv) * area (slv_rotor slv))
     \<and> r_s = blade_radius (slv_rotor slv) / sqrt 2
     \<and> v_s = slv_Cs slv * sqrt (2 * slv_T slv / (rho (slv_fluid slv) * area (slv_rotor slv)))"
  by (auto simp: slipstream_def Let_def bind_r_Inr py_div_Inr py_sqrt_def)

text \<open>The first step of \<^verbatim>\<open>run\<close>, and the run of a solver that is not coaxial.\<close>

lemma run_primary_fails:
  "solve bisect slv (slv_rotor slv) (slv_rpm slv) (slv_v_inf slv) (diameter (slv_rotor slv)) = Inl e
     \<Longrightarrow> run bisect slv = Inl e"
  by (simp add: run_def)

lemma run_single:
  assumes "\<not> slv_coaxial slv"
    and "solve bisect slv (slv_rotor slv) (slv_rpm slv) (slv_v_inf slv) (diameter (slv_rotor slv))
           = Inr ([PFloat T, PFloat Q, PFloat P], rot1)"
  shows "run bisect slv
           = Inr ([PFloat T, PFloat Q, PFloat P, PFrame (sections_dataframe rot1)],
                  slv\<lparr>slv_rotor := rot1, slv_T := T, slv_Q := Q, slv_P := P\<rparr>)"
  using assms by (simp add: run_def Let_def)

lemma run_coaxial:
  assumes "slv_coaxial slv"
    and "solve bisect slv (slv_rotor slv) (slv_rpm slv) (slv_v_inf slv) (diameter (slv_rotor slv))
           = Inr ([PFloat T, PFloat Q, PFloat P], rot1)"
  shows "run bisect slv =
     bind_r (slipstream (slv\<lparr>slv_rotor := rot1, slv_T := T, slv_Q := Q, slv_P := P\<rparr>))
       (\<lambda>(r_s, v_s).
     bind_r (solve bisect slv (slv_rotor2 slv) (slv_rpm2 slv) v_s r_s) (\<lambda>(ret2, rot2).
     bind_r (unpack3 ret2) (\<lambda>(T2, Q2, P2).
       Inr ([PFloat T, PFloat Q, PFloat P, PFrame (sections_dataframe rot1),
             PFloat (float_of T2), PFloat (float_of Q2), PFloat (float_of P2),
             PFrame (sections_dataframe rot2)],
            slv\<lparr>slv_rotor := rot1, slv_T := T, slv_Q := Q, slv_P := P, slv_r_s := r_s,
                slv_v_s := v_s, slv_rotor2 := rot2, slv_T2 := float_of T2,
                slv_Q2 := float_of Q2, slv_P2 := float_of P2\<rparr>))))"
proof -
  have c: "\<And>r_s v_s. solve bisect
       (slv\<lparr>slv_rotor := rot1, slv_T := T, slv_Q := Q, slv_P := P, slv_r_s := r_s, slv_v_s := v_s\<rparr>)
       = solve bisect slv"
    by (rule solve_slv_cong) simp_all
  show ?thesis
    using assms by (simp add: run_def Let_def c split_beta)
qed

lemma solve_geometry:
  assumes "solve bisect slv rot rpm v r = Inr (ret, rot')"
  shows "blade_radius rot' = 0.5 * diameter rot" and "area rot' = pi * (0.5 * diameter rot)\<^sup>2"
    and "diameter rot' = diameter rot"
  using assms unfolding solve_Inr by (auto simp: rotor_precalc_def Let_def)

text \<open>
  Claim C10. In coaxial mode, when the primary solve returns a strictly negative
  thrust \<open>T\<close> (for a fluid of positive density and a rotor of non-zero diameter),
  \<^verbatim>\<open>slipstream\<close> raises \<^verbatim>\<open>ValueError\<close>, the square root of a negative number, and
  \<^verbatim>\<open>run\<close> ends with that exception: it returns nothing for the secondary rotor.
\<close>

theorem coaxial_negative_thrust:
  assumes "slv_coaxial slv"
    and "solve bisect slv (slv_rotor slv) (slv_rpm slv) (slv_v_inf slv) (diameter (slv_rotor slv))
           = Inr ([PFloat T, PFloat Q, PFloat P], rot1)"
    and "T < 0" and "0 < rho (slv_fluid slv)" and "diameter (slv_rotor slv) \<noteq> 0"
  shows "slipstream (slv\<lparr>slv_rotor := rot1, slv_T := T, slv_Q := Q, slv_P := P\<rparr>) = Inl ValueError
       \<and> run bisect slv = Inl ValueError"
proof -
  let ?s = "slv\<lparr>slv_rotor := rot1, slv_T := T, slv_Q := Q, slv_P := P\<rparr>"
  have "0 < (0.5 * diameter (slv_rotor slv))\<^sup>2" using assms(5) by simp
  then have "0 < area rot1" using solve_geometry(2)[OF assms(2)] by simp
  then have d: "0 < rho (slv_fluid slv) * area rot1" using assms(4) by simp
  then have "2 * T / (rho (slv_fluid slv) * area rot1) < 0"
    using assms(3) by (simp add: divide_neg_pos)
  moreover have "rho (slv_fluid slv) * area rot1 \<noteq> 0" using d by linarith
  ultimately have s: "slipstream ?s = Inl ValueError"
    by (simp add: slipstream_def Let_def py_div_def py_sqrt_def)
  show ?thesis using s run_coaxial[OF assms(1,2)] by simp
qed

text \<open>The scenario with the blade at \<open>phi = pi/2\<close>: the thrust of the section is negative.\<close>

lemma scenario_forces_negative:
  assumes "n_blades rot = 2" and "blade_radius rot = 1 / 2" and "radius_hub rot = 1 / 10"
    and "0 < v"
  shows "\<exists>dT dQ s'. forces rot (scenario_section 0.3) (pi / 2) v om scenario_fluid
            = Inr ((dT, dQ), s') \<and> dT < 0"
proof -
  let ?S = "scenario_section 0.3"
  have sr: "sec_radius ?S = 3 / 10" by (simp add: scenario_section_def)
  obtain F where F: "tip_loss rot ?S (pi / 2) = Inr (F, ?S\<lparr>sec_F := F\<rparr>)" "0 < F"
    using tip_loss_val[of "pi / 2" rot ?S] assms(1-3) sr by auto
  have af: "fst (airfoil_forces ?S (pi / 2)) = - (1 / 50)"
    "snd (airfoil_forces ?S (pi / 2)) = 1 / 2"
    by (simp_all add: airfoil_forces_def angle_of_attack_def scenario_section_def
        scenario_airfoil_def)
  have "\<exists>dT dQ Re. forces rot ?S (pi / 2) v om scenario_fluid
      = Inr ((dT, dQ), ?S\<lparr>sec_F := F, sec_Re := Re, sec_dT := dT, sec_dQ := dQ\<rparr>)
      \<and> (0 < - (1 / 50 :: real) \<longrightarrow> 0 < dT) \<and> (- (1 / 50 :: real) < 0 \<longrightarrow> dT < 0) \<and> 0 < dQ"
  proof (rule forces_sign[OF _ _ _ _ F(1) F(2) _ _ af(1) af(2) _ _ assms(4)])
    show "sec_C ?S = 1" by (simp add: scenario_section_def)
    show "0 < sec_sigma ?S" by (simp add: scenario_section_def)
    show "0 < sec_radius ?S" by (simp add: scenario_section_def)
    show "0 < sec_width ?S" by (simp add: scenario_section_def)
    show "0 < sin (pi / 2)" by simp
    show "0 \<le> cos (pi / 2)" by simp
    show "(0::real) < 1 / 2" by simp
    show "- (1 / 50) < (0::real) \<or> (0::real) < - (1 / 50) \<and> sec_sigma ?S * - (1 / 50) < 4 * F * (sin (pi / 2))\<^sup>2"
      by simp
    show "0 < rho scenario_fluid" by (simp add: scenario_fluid_def)
    show "mu scenario_fluid \<noteq> 0" by (simp add: scenario_fluid_def)
  qed
  then show ?thesis by auto
qed

theorem coaxial_negative_thrust_witness:
  "run (fixed_root (pi / 2)) (scenario_solver True) = Inl ValueError"
proof -
  let ?slv = "scenario_solver True"
  have g: "n_blades (rotor_precalc scenario_rotor) = 2"
    "blade_radius (rotor_precalc scenario_rotor) = 1 / 2"
    "radius_hub (rotor_precalc scenario_rotor) = 1 / 10"
    by (simp_all add: rotor_precalc_def scenario_rotor_def scenario_geometry_def Let_def)
  have i: "section_inflow (scenario_section 0.3) 10 1 = 10"
    by (simp add: section_inflow_def scenario_section_def)
  obtain dT dQ s' where f:
    "forces (rotor_precalc scenario_rotor) (scenario_section 0.3) (pi / 2) 10 (3000 * 2 * pi / 60)
       scenario_fluid = Inr ((dT, dQ), s')" "dT < 0"
    using scenario_forces_negative[OF g, of 10 "3000 * 2 * pi / 60"] by auto
  have f': "forces (rotor_precalc scenario_rotor) (scenario_section 0.3) (pi / 2)
        (section_inflow (scenario_section 0.3) 10 1) (3000 * 2 * pi / 60) (slv_fluid ?slv)
       = Inr ((dT, dQ), s')"
    using f(1) i by (simp add: scenario_solver_def)
  have s: "sections scenario_rotor = [scenario_section 0.3]" by (simp add: scenario_rotor_def)
  have b: "slv_solver ?slv \<noteq> ''brute''" by (simp add: scenario_solver_def)
  have "solve (fixed_root (pi / 2)) ?slv scenario_rotor 3000 10 1
      = Inr ([PFloat dT, PFloat dQ, PFloat (dQ * (3000 * 2 * pi / 60))],
             (rotor_precalc scenario_rotor)\<lparr>sections := [s']\<rparr>)"
    by (rule solve_single[OF s b f'])
  then have p: "solve (fixed_root (pi / 2)) ?slv (slv_rotor ?slv) (slv_rpm ?slv) (slv_v_inf ?slv)
        (diameter (slv_rotor ?slv))
      = Inr ([PFloat dT, PFloat dQ, PFloat (dQ * (3000 * 2 * pi / 60))],
             (rotor_precalc scenario_rotor)\<lparr>sections := [s']\<rparr>)"
    by (simp add: scenario_solver_def scenario_rotor_def scenario_geometry_def)
  have c: "slv_coaxial ?slv" "0 < rho (slv_fluid ?slv)" "diameter (slv_rotor ?slv) \<noteq> 0"
    by (simp_all add: scenario_solver_def scenario_fluid_def scenario_rotor_def
        scenario_geometry_def)
  show ?thesis using coaxial_negative_thrust[OF c(1) p f(2) c(2) c(3)] by simp
qed

lemma run_coaxial_Inr:
  assumes "slv_coaxial slv" and "run bisect slv = Inr (ret, slv')"
  obtains T Q P rot1 r_s v_s T2 Q2 P2 rot2 where
    "solve bisect slv (slv_rotor slv) (slv_rpm slv) (slv_v_inf slv) (diameter (slv_rotor slv))
       = Inr ([PFloat T, PFloat Q, PFloat P], rot1)"
    and "slipstream (slv\<lparr>slv_rotor := rot1, slv_T := T, slv_Q := Q, slv_P := P\<rparr>) = Inr (r_s, v_s)"
    and "solve bisect slv (slv_rotor2 slv) (slv_rpm2 slv) v_s r_s
           = Inr ([PFloat T2, PFloat Q2, PFloat P2], rot2)"
    and "ret = [PFloat T, PFloat Q, PFloat P, PFrame (sections_dataframe rot1),
                PFloat T2, PFloat Q2, PFloat P2, PFrame (sections_dataframe rot2)]"
    and "slv' = slv\<lparr>slv_rotor := rot1, slv_T := T, slv_Q := Q, slv_P := P, slv_r_s := r_s,
                slv_v_s := v_s, slv_rotor2 := rot2, slv_T2 := T2, slv_Q2 := Q2, slv_P2 := P2\<rparr>"
proof (cases "solve bisect slv (slv_rotor slv) (slv_rpm slv) (slv_v_inf slv) (diameter (slv_rotor slv))")
  case (Inl e)
  then show ?thesis using assms(2) run_primary_fails by fastforce
next
  case (Inr p)
  obtain ret1 rot1 where p: "p = (ret1, rot1)" by (cases p)
  obtain T Q P where r1: "ret1 = [PFloat T, PFloat Q, PFloat P]"
    using Inr p solve_tuple by blast
  note s1 = Inr[unfolded p r1]
  let ?s1 = "slv\<lparr>slv_rotor := rot1, slv_T := T, slv_Q := Q, slv_P := P\<rparr>"
  from assms(2) obtain r_s v_s ret2 rot2 T2' Q2' P2' where
    sl: "slipstream ?s1 = Inr (r_s, v_s)"
    and s2: "solve bisect slv (slv_rotor2 slv) (slv_rpm2 slv) v_s r_s = Inr (ret2, rot2)"
    and u: "unpack3 ret2 = Inr (T2', Q2', P2')"
    and ret: "ret = [PFloat T, PFloat Q, PFloat P, PFrame (sections_dataframe rot1),
             PFloat (float_of T2'), PFloat (float_of Q2'), PFloat (float_of P2'),
             PFrame (sections_dataframe rot2)]"
    and slv': "slv' = slv\<lparr>slv_rotor := rot1, slv_T := T, slv_Q := Q, slv_P := P, slv_r_s := r_s,
                slv_v_s := v_s, slv_rotor2 := rot2, slv_T2 := float_of T2',
                slv_Q2 := float_of Q2', slv_P2 := float_of P2'\<rparr>"
    unfolding run_coaxial[OF assms(1) s1] by (auto simp: bind_r_Inr)
  obtain T2 Q2 P2 where r2: "ret2 = [PFloat T2, PFloat Q2, PFloat P2]"
    using s2 solve_tuple by blast
  have "T2' = PFloat T2" "Q2' = PFloat Q2" "P2' = PFloat P2" using u r2 by simp_all
  then show ?thesis using that[OF s1 sl s2[unfolded r2]] ret slv' by simp
qed

lemma run_Inr_primary:
  assumes "run bisect slv = Inr (ret, slv')"
  obtains T Q P rot1 where
    "solve bisect slv (slv_rotor slv) (slv_rpm slv) (slv_v_inf slv) (diameter (slv_rotor slv))
       = Inr ([PFloat T, PFloat Q, PFloat P], rot1)"
    and "take 3 ret = [PFloat T, PFloat Q, PFloat P]" and "slv_rotor slv' = rot1"
    and "ret ! 3 = PFrame (sections_dataframe rot1)"
proof (cases "slv_coaxial slv")
  case True
  obtain T Q P rot1 r_s v_s T2 Q2 P2 rot2 where
    a: "solve bisect slv (slv_rotor slv) (slv_rpm slv) (slv_v_inf slv) (diameter (slv_rotor slv))
       = Inr ([PFloat T, PFloat Q, PFloat P], rot1)"
    and b: "ret = [PFloat T, PFloat Q, PFloat P, PFrame (sections_dataframe rot1),
                PFloat T2, PFloat Q2, PFloat P2, PFrame (sections_dataframe rot2)]"
    and c: "slv' = slv\<lparr>slv_rotor := rot1, slv_T := T, slv_Q := Q, slv_P := P, slv_r_s := r_s,
                slv_v_s := v_s, slv_rotor2 := rot2, slv_T2 := T2, slv_Q2 := Q2, slv_P2 := P2\<rparr>"
    using run_coaxial_Inr[OF True assms] by metis
  have "take 3 ret = [PFloat T, PFloat Q, PFloat P]" by (simp add: b numeral_3_eq_3)
  moreover have "slv_rotor slv' = rot1" by (simp add: c)
  moreover have "ret ! 3 = PFrame (sections_dataframe rot1)" by (simp add: b numeral_3_eq_3)
  ultimately show ?thesis using that[OF a] by blast
next
  case False
  show ?thesis
  proof (cases "solve bisect slv (slv_rotor slv) (slv_rpm slv) (slv_v_inf slv) (diameter (slv_rotor slv))")
    case (Inl e)
    then show ?thesis using assms run_primary_fails by fastforce
  next
    case (Inr p)
    obtain ret1 rot1 where p: "p = (ret1, rot1)" by (cases p)
    obtain T Q P where r1: "ret1 = [PFloat T, PFloat Q, PFloat P]"
      using Inr p solve_tuple by blast
    note s1 = Inr[unfolded p r1]
    have r: "ret = [PFloat T, PFloat Q, PFloat P, PFrame (sections_dataframe rot1)]"
      and s: "slv' = slv\<lparr>slv_rotor := rot1, slv_T := T, slv_Q := Q, slv_P := P\<rparr>"
      using run_single[OF False s1] assms by simp_all
    have "take 3 ret = [PFloat T, PFloat Q, PFloat P]" by (simp add: r numeral_3_eq_3)
    moreover have "slv_rotor slv' = rot1" by (simp add: s)
    moreover have "ret ! 3 = PFrame (sections_dataframe rot1)" by (simp add: r numeral_3_eq_3)
    ultimately show ?thesis using that[OF s1] by blast
  qed
qed

text \<open>
  Claim C9. \<^verbatim>\<open>run\<close> solves the primary rotor with the rotor's diameter as inflow
  radius. For a rotor of positive diameter whose sections all have a radius of at most
  \<open>blade_radius = diameter / 2\<close>, every section then gets the free-stream velocity
  \<open>v_inf\<close>: the branch that sets the inflow to 0 is not taken, and each section of the
  primary rotor is solved, and its forces computed, with \<open>v_inf\<close>.
\<close>

theorem primary_inflow_is_free_stream:
  assumes "0 < diameter (slv_rotor slv)"
    and "\<forall>sec \<in> set (sections (slv_rotor slv)). sec_radius sec \<le> 0.5 * diameter (slv_rotor slv)"
    and "run bisect slv = Inr (ret, slv')"
  shows "(\<forall>sec \<in> set (sections (slv_rotor slv)).
            section_inflow sec (slv_v_inf slv) (diameter (slv_rotor slv)) = slv_v_inf slv)
       \<and> (\<exists>T Q P rot1.
            solve bisect slv (slv_rotor slv) (slv_rpm slv) (slv_v_inf slv) (diameter (slv_rotor slv))
              = Inr ([PFloat T, PFloat Q, PFloat P], rot1)
          \<and> take 3 ret = [PFloat T, PFloat Q, PFloat P] \<and> slv_rotor slv' = rot1
          \<and> list_all2 (\<lambda>sec sec'. \<exists>phi s1.
                 find_phi bisect (slv_solver slv) (rotor_precalc (slv_rotor slv)) sec
                   (slv_v_inf slv) (slv_rpm slv * 2 * pi / 60) = Inr (phi, s1)
               \<and> forces (rotor_precalc (slv_rotor slv)) s1 phi (slv_v_inf slv)
                   (slv_rpm slv * 2 * pi / 60) (slv_fluid slv)
                   = Inr ((sec_dT sec', sec_dQ sec'), sec'))
               (sections (slv_rotor slv)) (sections rot1))"
proof -
  let ?rot = "slv_rotor slv"
  have inflow: "\<forall>sec \<in> set (sections ?rot).
      section_inflow sec (slv_v_inf slv) (diameter ?rot) = slv_v_inf slv"
  proof
    fix sec assume "sec \<in> set (sections ?rot)"
    then have "sec_radius sec \<le> 0.5 * diameter ?rot" using assms(2) by blast
    then have "sec_radius sec < diameter ?rot" using assms(1) by simp
    then show "section_inflow sec (slv_v_inf slv) (diameter ?rot) = slv_v_inf slv"
      by (simp add: section_inflow_def)
  qed
  obtain T Q P rot1 where
    s: "solve bisect slv ?rot (slv_rpm slv) (slv_v_inf slv) (diameter ?rot)
          = Inr ([PFloat T, PFloat Q, PFloat P], rot1)"
    and t: "take 3 ret = [PFloat T, PFloat Q, PFloat P]" and r: "slv_rotor slv' = rot1"
    using run_Inr_primary[OF assms(3)] by metis
  obtain T' Q' secs where
    lp: "solve_loop bisect (slv_solver slv) (slv_fluid slv) (rotor_precalc ?rot)
           (slv_rpm slv * 2 * pi / 60) (slv_v_inf slv) (diameter ?rot) (sections ?rot) 0 0
           = Inr ((T', Q'), secs)"
    and rot1: "rot1 = (rotor_precalc ?rot)\<lparr>sections := secs\<rparr>"
    using s unfolding solve_Inr by blast
  have "list_all2 (\<lambda>sec sec'. \<exists>phi s1.
             find_phi bisect (slv_solver slv) (rotor_precalc ?rot) sec
               (section_inflow sec (slv_v_inf slv) (diameter ?rot)) (slv_rpm slv * 2 * pi / 60)
               = Inr (phi, s1)
           \<and> forces (rotor_precalc ?rot) s1 phi
               (section_inflow sec (slv_v_inf slv) (diameter ?rot)) (slv_rpm slv * 2 * pi / 60)
               (slv_fluid slv) = Inr ((sec_dT sec', sec_dQ sec'), sec'))
          (sections ?rot) secs"
    using solve_loop_sums[OF lp] by simp
  then have "list_all2 (\<lambda>sec sec'. \<exists>phi s1.
             find_phi bisect (slv_solver slv) (rotor_precalc ?rot) sec
               (slv_v_inf slv) (slv_rpm slv * 2 * pi / 60) = Inr (phi, s1)
           \<and> forces (rotor_precalc ?rot) s1 phi (slv_v_inf slv) (slv_rpm slv * 2 * pi / 60)
               (slv_fluid slv) = Inr ((sec_dT sec', sec_dQ sec'), sec'))
          (sections ?rot) secs"
    by (rule list.rel_mono_strong) (use inflow in auto)
  moreover have "sections rot1 = secs" by (simp add: rot1)
  ultimately show ?thesis using inflow s t r by blast
qed

lemma scenario_primary:
  "\<exists>T Q s'. solve (fixed_root (pi / 6)) (scenario_solver co) (slv_rotor (scenario_solver co))
               (slv_rpm (scenario_solver co)) (slv_v_inf (scenario_solver co))
               (diameter (slv_rotor (scenario_solver co)))
             = Inr ([PFloat T, PFloat Q, PFloat (Q * (3000 * 2 * pi / 60))],
                    (rotor_precalc scenario_rotor)\<lparr>sections := [s']\<rparr>)
           \<and> 0 < T \<and> 0 < Q"
proof -
  have a: "slv_solver (scenario_solver co) \<noteq> ''brute''"
    "slv_fluid (scenario_solver co) = scenario_fluid"
    by (simp_all add: scenario_solver_def)
  have e: "slv_rotor (scenario_solver co) = scenario_rotor" "slv_rpm (scenario_solver co) = 3000"
    "slv_v_inf (scenario_solver co) = 10" "diameter scenario_rotor = 1"
    by (simp_all add: scenario_solver_def scenario_rotor_def scenario_geometry_def)
  show ?thesis unfolding e using scenario_solve[OF a, of 10 1 3000] by auto
qed

lemma scenario_run_single:
  "\<exists>ret slv'. run (fixed_root (pi / 6)) (scenario_solver False) = Inr (ret, slv')"
proof -
  obtain T Q s' where
    "solve (fixed_root (pi / 6)) (scenario_solver False) (slv_rotor (scenario_solver False))
               (slv_rpm (scenario_solver False)) (slv_v_inf (scenario_solver False))
               (diameter (slv_rotor (scenario_solver False)))
             = Inr ([PFloat T, PFloat Q, PFloat (Q * (3000 * 2 * pi / 60))],
                    (rotor_precalc scenario_rotor)\<lparr>sections := [s']\<rparr>)"
    using scenario_primary[of False] by auto
  moreover have "\<not> slv_coaxial (scenario_solver False)" by (simp add: scenario_solver_def)
  ultimately show ?thesis using run_single by blast
qed

theorem primary_inflow_is_free_stream_witness:
  "\<not> isl (run (fixed_root (pi / 6)) (scenario_solver False))
   \<and> section_inflow (scenario_section 0.3) (slv_v_inf (scenario_solver False))
       (diameter (slv_rotor (scenario_solver False))) = 10"
proof -
  obtain ret slv' where r: "run (fixed_root (pi / 6)) (scenario_solver False) = Inr (ret, slv')"
    using scenario_run_single by auto
  have d: "0 < diameter (slv_rotor (scenario_solver False))"
    by (simp add: scenario_solver_def scenario_rotor_def scenario_geometry_def)
  have s: "\<forall>sec \<in> set (sections (slv_rotor (scenario_solver False))).
      sec_radius sec \<le> 0.5 * diameter (slv_rotor (scenario_solver False))"
    by (simp add: scenario_solver_def scenario_rotor_def scenario_geometry_def
        scenario_section_def)
  have m: "scenario_section 0.3 \<in> set (sections (slv_rotor (scenario_solver False)))"
    by (simp add: scenario_solver_def scenario_rotor_def)
  have v: "slv_v_inf (scenario_solver False) = 10" by (simp add: scenario_solver_def)
  show ?thesis
    using primary_inflow_is_free_stream[OF d s r] m v r by auto
qed

lemma slipstream_scale:
  assumes "slipstream s = Inr (r_s, v_s)" and "0 \<le> k"
  shows "slipstream (s\<lparr>slv_T := k * slv_T s\<rparr>) = Inr (r_s, sqrt k * v_s)"
proof -
  let ?d = "rho (slv_fluid s) * area (slv_rotor s)"
  have d: "?d \<noteq> 0" and q: "0 \<le> 2 * slv_T s / ?d"
    and r: "r_s = blade_radius (slv_rotor s) / sqrt 2"
    and v: "v_s = slv_Cs s * sqrt (2 * slv_T s / ?d)"
    using assms(1) unfolding slipstream_Inr by auto
  have e: "2 * (k * slv_T s) / ?d = k * (2 * slv_T s / ?d)" by simp
  have "0 \<le> k * (2 * slv_T s / ?d)" using assms(2) q by (rule mult_nonneg_nonneg)
  then have "0 \<le> 2 * (k * slv_T s) / ?d" by (simp only: e)
  moreover have "slv_Cs s * sqrt (2 * (k * slv_T s) / ?d) = sqrt k * v_s"
  proof -
    have "sqrt (k * (2 * slv_T s / ?d)) = sqrt k * sqrt (2 * slv_T s / ?d)"
      by (rule real_sqrt_mult)
    then show ?thesis unfolding e v by (simp only: mult_ac)
  qed
  ultimately show ?thesis unfolding slipstream_Inr using d r by simp
qed

text \<open>
  Claim C7. In coaxial mode, when \<^verbatim>\<open>run\<close> returns, the primary rotor was solved first
  with thrust \<open>T\<close>; the slipstream radius is \<open>blade_radius / sqrt 2\<close> and the
  slipstream velocity is \<open>Cs * sqrt (2 * T / (rho * area))\<close>, which scales with the
  square root of the thrust; the secondary rotor was solved with these as its inflow
  radius and inflow velocity and with \<open>rpm2\<close>; and the primary results are those of the
  run that is not coaxial.
\<close>

theorem coaxial_slipstream:
  assumes "slv_coaxial slv" and "run bisect slv = Inr (ret, slv')"
  shows "\<exists>T Q P rot1 T2 Q2 P2 rot2.
      solve bisect slv (slv_rotor slv) (slv_rpm slv) (slv_v_inf slv) (diameter (slv_rotor slv))
        = Inr ([PFloat T, PFloat Q, PFloat P], rot1)
    \<and> slv_r_s slv' = blade_radius rot1 / sqrt 2
    \<and> blade_radius rot1 = 0.5 * diameter (slv_rotor slv)
    \<and> slv_v_s slv' = slv_Cs slv * sqrt (2 * T / (rho (slv_fluid slv) * area rot1))
    \<and> area rot1 = pi * (0.5 * diameter (slv_rotor slv))\<^sup>2
    \<and> (\<forall>k\<ge>0. slipstream (slv\<lparr>slv_rotor := rot1, slv_T := k * T\<rparr>)
                 = Inr (slv_r_s slv', sqrt k * slv_v_s slv'))
    \<and> solve bisect slv (slv_rotor2 slv) (slv_rpm2 slv) (slv_v_s slv') (slv_r_s slv')
        = Inr ([PFloat T2, PFloat Q2, PFloat P2], rot2)
    \<and> ret = [PFloat T, PFloat Q, PFloat P, PFrame (sections_dataframe rot1),
              PFloat T2, PFloat Q2, PFloat P2, PFrame (sections_dataframe rot2)]
    \<and> run bisect (slv\<lparr>slv_coaxial := False\<rparr>)
        = Inr ([PFloat T, PFloat Q, PFloat P, PFrame (sections_dataframe rot1)],
               slv\<lparr>slv_coaxial := False, slv_rotor := rot1, slv_T := T, slv_Q := Q, slv_P := P\<rparr>)"
proof -
  obtain T Q P rot1 r_s v_s T2 Q2 P2 rot2 where
    s1: "solve bisect slv (slv_rotor slv) (slv_rpm slv) (slv_v_inf slv) (diameter (slv_rotor slv))
       = Inr ([PFloat T, PFloat Q, PFloat P], rot1)"
    and sl: "slipstream (slv\<lparr>slv_rotor := rot1, slv_T := T, slv_Q := Q, slv_P := P\<rparr>) = Inr (r_s, v_s)"
    and s2: "solve bisect slv (slv_rotor2 slv) (slv_rpm2 slv) v_s r_s
           = Inr ([PFloat T2, PFloat Q2, PFloat P2], rot2)"
    and ret: "ret = [PFloat T, PFloat Q, PFloat P, PFrame (sections_dataframe rot1),
                PFloat T2, PFloat Q2, PFloat P2, PFrame (sections_dataframe rot2)]"
    and slv': "slv' = slv\<lparr>slv_rotor := rot1, slv_T := T, slv_Q := Q, slv_P := P, slv_r_s := r_s,
                slv_v_s := v_s, slv_rotor2 := rot2, slv_T2 := T2, slv_Q2 := Q2, slv_P2 := P2\<rparr>"
    using run_coaxial_Inr[OF assms] by metis
  have rv: "slv_r_s slv' = r_s" "slv_v_s slv' = v_s" by (simp_all add: slv')
  have sl': "r_s = blade_radius rot1 / sqrt 2"
    "v_s = slv_Cs slv * sqrt (2 * T / (rho (slv_fluid slv) * area rot1))"
    using sl unfolding slipstream_Inr by simp_all
  have sc: "\<forall>k\<ge>0. slipstream (slv\<lparr>slv_rotor := rot1, slv_T := k * T\<rparr>) = Inr (r_s, sqrt k * v_s)"
  proof (intro allI impI)
    fix k :: real assume k: "0 \<le> k"
    have "slipstream (slv\<lparr>slv_rotor := rot1, slv_T := T\<rparr>) = Inr (r_s, v_s)"
      using sl unfolding slipstream_Inr by simp
    from slipstream_scale[OF this k]
    show "slipstream (slv\<lparr>slv_rotor := rot1, slv_T := k * T\<rparr>) = Inr (r_s, sqrt k * v_s)"
      by simp
  qed
  have c: "solve bisect (slv\<lparr>slv_coaxial := False\<rparr>) = solve bisect slv"
    by (rule solve_slv_cong) simp_all
  have nc: "run bisect (slv\<lparr>slv_coaxial := False\<rparr>)
        = Inr ([PFloat T, PFloat Q, PFloat P, PFrame (sections_dataframe rot1)],
               slv\<lparr>slv_coaxial := False, slv_rotor := rot1, slv_T := T, slv_Q := Q, slv_P := P\<rparr>)"
    using run_single[of "slv\<lparr>slv_coaxial := False\<rparr>" bisect T Q P rot1] s1 by (simp add: c)
  have f1: "slv_r_s slv' = blade_radius rot1 / sqrt 2" using rv(1) sl'(1) by (simp only:)
  have f3: "slv_v_s slv' = slv_Cs slv * sqrt (2 * T / (rho (slv_fluid slv) * area rot1))"
    using rv(2) sl'(2) by (simp only:)
  have f5: "\<forall>k\<ge>0. slipstream (slv\<lparr>slv_rotor := rot1, slv_T := k * T\<rparr>)
                 = Inr (slv_r_s slv', sqrt k * slv_v_s slv')"
    using sc by (simp only: rv)
  have f6: "solve bisect slv (slv_rotor2 slv) (slv_rpm2 slv) (slv_v_s slv') (slv_r_s slv')
        = Inr ([PFloat T2, PFloat Q2, PFloat P2], rot2)"
    using s2 by (simp only: rv)
  show ?thesis
    using s1 f1 solve_geometry(1)[OF s1] f3 solve_geometry(2)[OF s1] f5 f6 ret nc by blast
qed

lemma sqrt2_less: "sqrt 2 < 5 / 3"
  by (rule real_less_lsqrt) (simp_all add: power2_eq_square)

lemma scenario_run_coaxial:
  "\<exists>T Q P rot1 T2 Q2 P2 rot2 r_s v_s.
     run (fixed_root (pi / 6)) (scenario_solver True)
       = Inr ([PFloat T, PFloat Q, PFloat P, PFrame (sections_dataframe rot1),
               PFloat T2, PFloat Q2, PFloat P2, PFrame (sections_dataframe rot2)],
              (scenario_solver True)\<lparr>slv_rotor := rot1, slv_T := T, slv_Q := Q, slv_P := P,
                slv_r_s := r_s, slv_v_s := v_s, slv_rotor2 := rot2, slv_T2 := T2, slv_Q2 := Q2,
                slv_P2 := P2\<rparr>)
     \<and> 0 < Q \<and> 0 < Q2 \<and> diameter rot1 = 1"
proof -
  let ?slv = "scenario_solver True"
  obtain T Q s' where
    s1: "solve (fixed_root (pi / 6)) ?slv (slv_rotor ?slv) (slv_rpm ?slv) (slv_v_inf ?slv)
               (diameter (slv_rotor ?slv))
             = Inr ([PFloat T, PFloat Q, PFloat (Q * (3000 * 2 * pi / 60))],
                    (rotor_precalc scenario_rotor)\<lparr>sections := [s']\<rparr>)"
    and T: "0 < T" and Q: "0 < Q"
    using scenario_primary[of True] by auto
  let ?rot1 = "(rotor_precalc scenario_rotor)\<lparr>sections := [s']\<rparr>"
  let ?P = "Q * (3000 * 2 * pi / 60)"
  let ?s1 = "?slv\<lparr>slv_rotor := ?rot1, slv_T := T, slv_Q := Q, slv_P := ?P\<rparr>"
  define q where "q = 2 * T / (rho scenario_fluid * area ?rot1)"
  have A: "0 < rho scenario_fluid * area ?rot1"
    by (simp add: scenario_fluid_def rotor_precalc_def Let_def scenario_rotor_def
        scenario_geometry_def)
  then have q: "0 < q" unfolding q_def using T by simp
  define r_s where "r_s = blade_radius ?rot1 / sqrt 2"
  define v_s where "v_s = slv_Cs ?slv * sqrt q"
  have A0: "rho scenario_fluid * area ?rot1 \<noteq> 0" using A by linarith
  have q0: "0 \<le> 2 * T / (rho scenario_fluid * area ?rot1)" using q unfolding q_def by linarith
  have fs: "slv_fluid ?s1 = scenario_fluid" "slv_rotor ?s1 = ?rot1" "slv_T ?s1 = T"
    "slv_Cs ?s1 = slv_Cs ?slv"
    by (simp_all add: scenario_solver_def)
  have sl: "slipstream ?s1 = Inr (r_s, v_s)"
    unfolding slipstream_Inr fs using A0 q0 by (simp only: r_s_def v_s_def q_def simp_thms)
  have vs: "0 < v_s" unfolding v_s_def using q by (simp add: scenario_solver_def)
  have br: "blade_radius ?rot1 = 1 / 2"
    by (simp add: rotor_precalc_def Let_def scenario_rotor_def scenario_geometry_def)
  have "r_s = (1 / 2) / sqrt 2" unfolding r_s_def br ..
  moreover have "3 / 10 < (1 / 2) / sqrt 2"
  proof -
    have "3 / 10 * sqrt 2 < 3 / 10 * (5 / 3)" using sqrt2_less by simp
    then have "3 / 10 * sqrt 2 < 1 / 2" by simp
    then show ?thesis by (simp add: less_divide_eq)
  qed
  ultimately have rs: "3 / 10 < r_s" by simp
  have a: "slv_solver ?slv \<noteq> ''brute''" "slv_fluid ?slv = scenario_fluid"
    by (simp_all add: scenario_solver_def)
  obtain T2 Q2 s2 where
    s2: "solve (fixed_root (pi / 6)) ?slv scenario_rotor (slv_rpm2 ?slv) v_s r_s
           = Inr ([PFloat T2, PFloat Q2, PFloat (Q2 * (slv_rpm2 ?slv * 2 * pi / 60))],
                  (rotor_precalc scenario_rotor)\<lparr>sections := [s2]\<rparr>)"
    and Q2: "0 < Q2"
    using scenario_solve[OF a vs rs, of "slv_rpm2 ?slv"] by auto
  have r2: "slv_rotor2 ?slv = scenario_rotor" by (simp add: scenario_solver_def)
  have c: "slv_coaxial ?slv" by (simp add: scenario_solver_def)
  have d: "diameter ?rot1 = 1"
    by (simp add: rotor_precalc_def Let_def scenario_rotor_def scenario_geometry_def)
  have "run (fixed_root (pi / 6)) ?slv
       = Inr ([PFloat T, PFloat Q, PFloat ?P, PFrame (sections_dataframe ?rot1),
               PFloat T2, PFloat Q2, PFloat (Q2 * (slv_rpm2 ?slv * 2 * pi / 60)),
               PFrame (sections_dataframe ((rotor_precalc scenario_rotor)\<lparr>sections := [s2]\<rparr>))],
              ?slv\<lparr>slv_rotor := ?rot1, slv_T := T, slv_Q := Q, slv_P := ?P,
                slv_r_s := r_s, slv_v_s := v_s,
                slv_rotor2 := (rotor_precalc scenario_rotor)\<lparr>sections := [s2]\<rparr>,
                slv_T2 := T2, slv_Q2 := Q2, slv_P2 := Q2 * (slv_rpm2 ?slv * 2 * pi / 60)\<rparr>)"
    unfolding run_coaxial[OF c s1] sl using s2 by (simp add: r2)
  then show ?thesis using Q Q2 d by blast
qed

theorem coaxial_slipstream_witness:
  "\<not> isl (run (fixed_root (pi / 6)) (scenario_solver True))
   \<and> slv_r_s (snd (projr (run (fixed_root (pi / 6)) (scenario_solver True)))) = 0.5 / sqrt 2
   \<and> length (fst (projr (run (fixed_root (pi / 6)) (scenario_solver True)))) = 8"
proof -
  let ?slv = "scenario_solver True"
  obtain ret slv' where r: "run (fixed_root (pi / 6)) ?slv = Inr (ret, slv')"
    using scenario_run_coaxial by blast
  have c: "slv_coaxial ?slv" by (simp add: scenario_solver_def)
  have d: "diameter (slv_rotor ?slv) = 1"
    by (simp add: scenario_solver_def scenario_rotor_def scenario_geometry_def)
  from coaxial_slipstream[OF c r] obtain T Q P rot1 T2 Q2 P2 rot2 where
    f1: "slv_r_s slv' = blade_radius rot1 / sqrt 2"
    and f2: "blade_radius rot1 = 0.5 * diameter (slv_rotor ?slv)"
    and f3: "ret = [PFloat T, PFloat Q, PFloat P, PFrame (sections_dataframe rot1),
              PFloat T2, PFloat Q2, PFloat P2, PFrame (sections_dataframe rot2)]"
    by blast
  have "slv_r_s slv' = 0.5 / sqrt 2" unfolding f1 f2 d by simp
  moreover have "length ret = 8" unfolding f3 by simp
  ultimately show ?thesis using r by simp
qed

section \<open>What the brute-force search returns\<close>

lemma np_less_trans: "np_less a b \<Longrightarrow> np_less b c \<Longrightarrow> np_less a c"
  by (cases a; cases b; cases c) simp_all

lemma np_less_irrefl [simp]: "\<not> np_less a a"
  by (cases a) simp_all

lemma np_less_total:
  "\<not> np_isnan a \<Longrightarrow> \<not> np_isnan b \<Longrightarrow> np_less a b \<or> a = b \<or> np_less b a"
  by (cases a; cases b) auto

lemma np_less_asym: "np_less a b \<Longrightarrow> \<not> np_less b a"
  by (cases a; cases b) simp_all

lemma np_abs_isnan [simp]: "np_isnan (np_abs x) = np_isnan x"
  by (cases x) simp_all

lemma store_resid_not_nan [simp]: "\<not> np_isnan (store_resid res)"
  by (cases res) (simp_all add: store_resid_def)

text \<open>
  \<open>argmin_from\<close> over the rest \<open>xs\<close> of an array whose part \<open>pre\<close> is done, with the
  first least entry of \<open>pre\<close> at index \<open>best\<close>.
\<close>

lemma argmin_from_spec:
  assumes "\<forall>x \<in> set (pre @ xs). \<not> np_isnan x" and "best < length pre"
    and "\<forall>j < length pre. \<not> np_less (pre ! j) (pre ! best)"
    and "\<forall>j < best. np_less (pre ! best) (pre ! j)"
  shows "argmin_from xs (length pre) best (pre ! best) < length (pre @ xs)
       \<and> (\<forall>j < length (pre @ xs).
             \<not> np_less ((pre @ xs) ! j) ((pre @ xs) ! argmin_from xs (length pre) best (pre ! best)))
       \<and> (\<forall>j < argmin_from xs (length pre) best (pre ! best).
             np_less ((pre @ xs) ! argmin_from xs (length pre) best (pre ! best)) ((pre @ xs) ! j))"
  using assms
proof (induction xs arbitrary: pre best)
  case Nil
  then show ?case by simp
next
  case (Cons x xs)
  let ?pre = "pre @ [x]"
  have nn: "\<forall>y \<in> set (?pre @ xs). \<not> np_isnan y" using Cons.prems(1) by simp
  have bn: "\<not> np_isnan (pre ! best)" using Cons.prems(1,2) by simp
  have xn: "\<not> np_isnan x" using Cons.prems(1) by simp
  show ?case
  proof (cases "np_less x (pre ! best)")
    case True
    have b: "length pre < length ?pre" by simp
    have v: "?pre ! length pre = x" by simp
    have le: "\<forall>j < length ?pre. \<not> np_less (?pre ! j) (?pre ! length pre)"
    proof (intro allI impI)
      fix j assume j: "j < length ?pre"
      show "\<not> np_less (?pre ! j) (?pre ! length pre)"
      proof (cases "j < length pre")
        case True
        then have "\<not> np_less (pre ! j) (pre ! best)" using Cons.prems(3) by blast
        then have "\<not> np_less (pre ! j) x" using \<open>np_less x (pre ! best)\<close> np_less_trans by blast
        then show ?thesis using True by (simp add: nth_append)
      next
        case False
        then have "j = length pre" using j by simp
        then show ?thesis by simp
      qed
    qed
    have lt: "\<forall>j < length pre. np_less (?pre ! length pre) (?pre ! j)"
    proof (intro allI impI)
      fix j assume j: "j < length pre"
      then have n: "\<not> np_less (pre ! j) (pre ! best)" using Cons.prems(3) by blast
      have "\<not> np_isnan (pre ! j)" using Cons.prems(1) j by simp
      then have "np_less (pre ! best) (pre ! j) \<or> pre ! best = pre ! j"
        using np_less_total[OF _ bn, of "pre ! j"] n by auto
      then have "np_less x (pre ! j)" using True np_less_trans by auto
      then show "np_less (?pre ! length pre) (?pre ! j)" using j by (simp add: nth_append)
    qed
    from Cons.IH[of ?pre "length pre", OF nn b le lt]
    show ?thesis using True bn xn by simp
  next
    case False
    have b: "best < length ?pre" using Cons.prems(2) by simp
    have v: "?pre ! best = pre ! best" using Cons.prems(2) by (simp add: nth_append)
    have le: "\<forall>j < length ?pre. \<not> np_less (?pre ! j) (?pre ! best)"
    proof (intro allI impI)
      fix j assume j: "j < length ?pre"
      show "\<not> np_less (?pre ! j) (?pre ! best)"
      proof (cases "j < length pre")
        case True
        then show ?thesis using Cons.prems(3) v by (simp add: nth_append)
      next
        case F: False
        then have "j = length pre" using j by simp
        then show ?thesis using False v by simp
      qed
    qed
    have lt: "\<forall>j < best. np_less (?pre ! best) (?pre ! j)"
      using Cons.prems(2,4) v by (simp add: nth_append)
    from Cons.IH[of ?pre best, OF nn b le lt]
    show ?thesis using False bn xn v by simp
  qed
qed

lemma np_argmin_spec:
  assumes "xs \<noteq> []" and "\<forall>x \<in> set xs. \<not> np_isnan x"
  shows "\<exists>k < length xs. np_argmin xs = Inr k
       \<and> (\<forall>j < length xs. \<not> np_less (xs ! j) (xs ! k))
       \<and> (\<forall>j < k. np_less (xs ! k) (xs ! j))"
proof -
  obtain x rest where xs: "xs = x # rest" using assms(1) by (cases xs) auto
  have "argmin_from rest (length [x]) 0 ([x] ! 0) < length ([x] @ rest)
       \<and> (\<forall>j < length ([x] @ rest).
             \<not> np_less (([x] @ rest) ! j) (([x] @ rest) ! argmin_from rest (length [x]) 0 ([x] ! 0)))
       \<and> (\<forall>j < argmin_from rest (length [x]) 0 ([x] ! 0).
             np_less (([x] @ rest) ! argmin_from rest (length [x]) 0 ([x] ! 0)) (([x] @ rest) ! j))"
    by (rule argmin_from_spec) (use assms(2) xs in simp_all)
  then show ?thesis by (simp add: xs np_argmin_def)
qed

lemma length_linspace [simp]: "length (linspace lo hi n) = n"
  by (simp add: linspace_def)

lemma linspace_nth:
  "i < n \<Longrightarrow> linspace lo hi n ! i
     = (if n = 1 then lo else lo + real i * ((hi - lo) / real (n - 1)))"
  by (auto simp: linspace_def)

lemma linspace_bounds:
  assumes "lo \<le> hi" and "i < n"
  shows "lo \<le> linspace lo hi n ! i" and "linspace lo hi n ! i \<le> hi"
proof -
  have "lo \<le> linspace lo hi n ! i \<and> linspace lo hi n ! i \<le> hi"
  proof (cases "n = 1")
    case True
    then show ?thesis using assms by (simp add: linspace_nth)
  next
    case False
    then have n: "0 < real (n - 1)" using assms(2) by simp
    let ?t = "real i / real (n - 1)"
    have t0: "0 \<le> ?t" by simp
    have "real i \<le> real (n - 1)" using assms(2) by simp
    then have t1: "?t \<le> 1" using n by (simp add: divide_le_eq)
    have e: "linspace lo hi n ! i = lo + ?t * (hi - lo)"
      using False assms(2) by (simp add: linspace_nth)
    have d: "0 \<le> hi - lo" using assms(1) by simp
    have "0 \<le> ?t * (hi - lo)" using t0 d by (rule mult_nonneg_nonneg)
    moreover have "?t * (hi - lo) \<le> 1 * (hi - lo)" using t1 d by (rule mult_right_mono)
    ultimately show ?thesis unfolding e by simp
  qed
  then show "lo \<le> linspace lo hi n ! i" and "linspace lo hi n ! i \<le> hi" by simp_all
qed

lemma linspace_Cons: "0 < n \<Longrightarrow> \<exists>rest. linspace lo hi n = lo # rest"
proof -
  assume n: "0 < n"
  then have "linspace lo hi n \<noteq> []" by (metis length_linspace list.size(3) less_irrefl)
  then obtain x rest where c: "linspace lo hi n = x # rest" by (cases "linspace lo hi n") auto
  have "x = linspace lo hi n ! 0" by (simp add: c)
  then have "x = lo" using n by (simp add: linspace_nth)
  then show ?thesis using c by blast
qed

text \<open>What the loop of \<^verbatim>\<open>brute_solve\<close> leaves in \<^verbatim>\<open>resid\<close>, and when it raises.\<close>

lemma brute_loop_Inr:
  assumes "brute_loop f sec phis = Inr (resid, sec')"
  shows "length resid = length phis
       \<and> list_all2 (\<lambda>phi r. \<exists>s s' res. f s phi = Inr (res, s') \<and> r = store_resid res) phis resid"
  using assms
proof (induction phis arbitrary: sec resid)
  case Nil
  then show ?case by simp
next
  case (Cons phi phis)
  from Cons.prems obtain res s1 rest where
    f: "f sec phi = Inr (res, s1)" and l: "brute_loop f s1 phis = Inr (rest, sec')"
    and r: "resid = store_resid res # rest"
    by (auto simp: bind_r_Inr)
  show ?case using Cons.IH[OF l] f r by auto
qed

lemma brute_loop_Inl:
  assumes "brute_loop f sec phis = Inl e"
  shows "\<exists>phi \<in> set phis. \<exists>s. f s phi = Inl e"
  using assms
proof (induction phis arbitrary: sec)
  case Nil
  then show ?case by simp
next
  case (Cons phi phis)
  show ?case
  proof (cases "f sec phi")
    case (Inl e')
    then show ?thesis using Cons.prems by auto
  next
    case (Inr p)
    obtain res s1 where p: "p = (res, s1)" by (cases p)
    show ?thesis
    proof (cases "brute_loop f s1 phis")
      case (Inl e')
      then have "e' = e" using Cons.prems Inr p by simp
      then show ?thesis using Cons.IH[of s1] Inl by auto
    next
      case I: (Inr q)
      then show ?thesis using Cons.prems Inr p by (simp add: split_beta)
    qed
  qed
qed

lemma brute_loop_first_raises:
  "f sec phi = Inl e \<Longrightarrow> brute_loop f sec (phi # phis) = Inl e"
  by simp

text \<open>
  The search of \<^verbatim>\<open>brute_solve\<close> for any residual \<open>f\<close> and any number \<open>n > 0\<close> of
  grid points. It has no handler: an exception of the residual at a grid point leaves
  it. When the residual returns at every grid point, a NaN is stored as \<open>1e30\<close> and
  every other value as it is, and the answer is the first grid point whose stored
  magnitude is least, a \<open>phi\<close> in \<open>[-0.9*pi, 0.9*pi]\<close>.
\<close>

lemma brute_solve_with_spec:
  assumes "0 < n"
  shows "brute_solve rot sec v omega = brute_solve_with (func_np rot v omega) sec 3600
       \<and> (\<forall>e. brute_loop f s0 (linspace (- 0.9 * pi) (0.9 * pi) n) = Inl e \<longrightarrow>
              brute_solve_with f s0 n = Inl e
            \<and> (\<exists>phi \<in> set (linspace (- 0.9 * pi) (0.9 * pi) n). \<exists>s. f s phi = Inl e))
       \<and> (\<forall>resid s'. brute_loop f s0 (linspace (- 0.9 * pi) (0.9 * pi) n) = Inr (resid, s') \<longrightarrow>
              (\<exists>k < n. brute_solve_with f s0 n = Inr (linspace (- 0.9 * pi) (0.9 * pi) n ! k, s')
                 \<and> - 0.9 * pi \<le> linspace (- 0.9 * pi) (0.9 * pi) n ! k
                 \<and> linspace (- 0.9 * pi) (0.9 * pi) n ! k \<le> 0.9 * pi
                 \<and> length resid = n
                 \<and> list_all2 (\<lambda>phi r. \<exists>s s1 res. f s phi = Inr (res, s1)
                        \<and> r = (if np_isnan res then Fin (10 ^ 30) else res))
                      (linspace (- 0.9 * pi) (0.9 * pi) n) resid
                 \<and> (\<forall>j < n. \<not> np_less (np_abs (resid ! j)) (np_abs (resid ! k)))
                 \<and> (\<forall>j < k. np_less (np_abs (resid ! k)) (np_abs (resid ! j)))))"
proof (intro conjI allI impI)
  let ?phis = "linspace (- 0.9 * pi) (0.9 * pi) n"
  show "brute_solve rot sec v omega = brute_solve_with (func_np rot v omega) sec 3600"
    by (simp add: brute_solve_def)
  fix e assume l: "brute_loop f s0 ?phis = Inl e"
  show "brute_solve_with f s0 n = Inl e" using l by (simp add: brute_solve_with_def)
  show "\<exists>phi \<in> set ?phis. \<exists>s. f s phi = Inl e" using brute_loop_Inl[OF l] .
next
  let ?phis = "linspace (- 0.9 * pi) (0.9 * pi) n"
  fix resid s' assume l: "brute_loop f s0 ?phis = Inr (resid, s')"
  have len: "length resid = n" using brute_loop_Inr[OF l] by simp
  have tr: "list_all2 (\<lambda>phi r. \<exists>s s1 res. f s phi = Inr (res, s1)
                        \<and> r = (if np_isnan res then Fin (10 ^ 30) else res)) ?phis resid"
  proof (rule list_all2_mono)
    show "list_all2 (\<lambda>phi r. \<exists>s s' res. f s phi = Inr (res, s') \<and> r = store_resid res) ?phis resid"
      using brute_loop_Inr[OF l] by simp
  next
    fix phi r assume "\<exists>s s' res. f s phi = Inr (res, s') \<and> r = store_resid res"
    then show "\<exists>s s1 res. f s phi = Inr (res, s1) \<and> r = (if np_isnan res then Fin (10 ^ 30) else res)"
      unfolding store_resid_def by (metis (full_types))
  qed
  have nn: "\<forall>x \<in> set (map np_abs resid). \<not> np_isnan x"
  proof
    fix x assume "x \<in> set (map np_abs resid)"
    then obtain r where r: "r \<in> set resid" "x = np_abs r" by auto
    then obtain i where i: "i < length resid" "resid ! i = r" by (auto simp: in_set_conv_nth)
    have la: "list_all2 (\<lambda>phi r. \<exists>s s' res. f s phi = Inr (res, s') \<and> r = store_resid res)
        ?phis resid"
      using brute_loop_Inr[OF l] by blast
    have "i < length ?phis" using i(1) len by simp
    from list_all2_nthD[OF la this]
    obtain res where "resid ! i = store_resid res" by blast
    then have "\<not> np_isnan r" using i(2) store_resid_not_nan by metis
    then show "\<not> np_isnan x" using r(2) by simp
  qed
  have ne: "map np_abs resid \<noteq> []" using len assms by auto
  obtain k where k: "k < length (map np_abs resid)" "np_argmin (map np_abs resid) = Inr k"
    "\<forall>j < length (map np_abs resid). \<not> np_less (map np_abs resid ! j) (map np_abs resid ! k)"
    "\<forall>j < k. np_less (map np_abs resid ! k) (map np_abs resid ! j)"
    using np_argmin_spec[OF ne nn] by blast
  have kn: "k < n" using k(1) len by simp
  have b: "- 0.9 * pi \<le> ?phis ! k" "?phis ! k \<le> 0.9 * pi"
    using linspace_bounds[of "- 0.9 * pi" "0.9 * pi" k n] kn by simp_all
  have r: "brute_solve_with f s0 n = Inr (?phis ! k, s')"
    using l k(2) by (simp add: brute_solve_with_def)
  have m1: "\<forall>j < n. \<not> np_less (np_abs (resid ! j)) (np_abs (resid ! k))"
    using k(3) kn len by simp
  have m2: "\<forall>j < k. np_less (np_abs (resid ! k)) (np_abs (resid ! j))"
    using k(4) kn len by simp
  show "\<exists>k < n. brute_solve_with f s0 n = Inr (?phis ! k, s')
                 \<and> - 0.9 * pi \<le> ?phis ! k \<and> ?phis ! k \<le> 0.9 * pi
                 \<and> length resid = n
                 \<and> list_all2 (\<lambda>phi r. \<exists>s s1 res. f s phi = Inr (res, s1)
                        \<and> r = (if np_isnan res then Fin (10 ^ 30) else res)) ?phis resid
                 \<and> (\<forall>j < n. \<not> np_less (np_abs (resid ! j)) (np_abs (resid ! k)))
                 \<and> (\<forall>j < k. np_less (np_abs (resid ! k)) (np_abs (resid ! j)))"
    using kn r b len tr m1 m2 by blast
qed

text \<open>The residual raises wherever the tip-loss factor is 0.\<close>

lemma func_zero_tip_loss:
  assumes "tip_loss rot sec phi = Inr (0, s1)" and "sec_C sec = 1 \<or> sec_C sec = - 1"
  shows "func rot sec phi v om = Inl ZeroDivisionError"
proof -
  have s1: "s1 = sec\<lparr>sec_F := 0\<rparr>" using assms(1) by (rule tip_loss_state)
  let ?CT = "fst (airfoil_forces sec phi)" and ?CQ = "snd (airfoil_forces sec phi)"
  show ?thesis
  proof (cases "sec_sigma sec * ?CT = 0 \<or> sec_sigma sec * ?CQ = 0")
    case True
    then show ?thesis
      using assms unfolding func_def induction_factors_def Let_def s1
      by (auto simp: py_div_def split_beta)
  next
    case False
    then show ?thesis
      using assms unfolding func_def induction_factors_def Let_def s1
      by (auto simp: py_div_def split_beta)
  qed
qed

lemma prandtl_factor_neg:
  assumes "f \<le> 0" and "- f \<le> 500"
  shows "prandtl_factor f = Inr 0"
proof -
  have "1 \<le> exp (- f)" using assms(1) by simp
  then have "min 1 (exp (- f)) = 1" by simp
  then show ?thesis using assms(2) by (simp add: prandtl_factor_no_guard)
qed

lemma sin_tenth_pi: "1 / 10 \<le> sin (pi / 10)"
proof -
  let ?x = "pi / 10"
  have "\<bar>sin ?x - (\<Sum>m<2. sin_coeff m * ?x ^ m)\<bar> \<le> inverse (fact 2) * \<bar>?x\<bar> ^ 2"
    by (rule Maclaurin_sin_bound)
  moreover have "(\<Sum>m<2. sin_coeff m * ?x ^ m) = ?x"
    by (simp add: numeral_2_eq_2 sin_coeff_Suc)
  ultimately have "\<bar>sin ?x - ?x\<bar> \<le> ?x\<^sup>2 / 2" by (simp add: power2_eq_square)
  then have b: "?x - ?x\<^sup>2 / 2 \<le> sin ?x" by linarith
  have x0: "2 / 10 \<le> ?x" using pi_ge_two by simp
  have x1: "?x \<le> 4 / 10" using pi_less_4 by simp
  have "?x\<^sup>2 \<le> (4 / 10)\<^sup>2" using x0 x1 by (intro power_mono) simp_all
  then have "?x\<^sup>2 / 2 \<le> 8 / 100" by (simp add: power2_eq_square)
  then show ?thesis using b x0 by linarith
qed

lemma sin_grid_start: "sin (- 0.9 * pi) \<le> - (1 / 10)"
proof -
  have "sin (- 0.9 * pi) = - sin (pi - pi / 10)"
    by (simp add: algebra_simps flip: sin_minus)
  also have "\<dots> = - sin (pi / 10)" by (simp only: sin_pi_minus)
  finally show ?thesis using sin_tenth_pi by linarith
qed

lemma prandtl_factor_returns: "\<exists>F. prandtl_factor g = Inr F"
proof (cases "- g > 500")
  case True
  then show ?thesis by (simp add: prandtl_factor_def)
next
  case False
  then show ?thesis by (simp add: prandtl_factor_no_guard)
qed

text \<open>
  The first grid point of \<^verbatim>\<open>brute_solve\<close> is \<open>phi = -0.9*pi\<close>, where \<open>sin phi\<close> is
  negative. For a section of positive radius that does not lie beyond the blade tip
  (and whose tip gap times the blade count is at most 100 radii, so that the guard of
  \<^verbatim>\<open>prandtl\<close> is not taken), \<open>f \<le> 0\<close> there, \<open>exp(-f) \<ge> 1\<close> and the tip factor is
  \<open>acos(1) = 0\<close>. With \<open>F = 0\<close> both \<open>kappa\<close> are 0, \<open>a = 1/(0 - C)\<close>, and the residual
  divides by \<open>1 + C*a = 0\<close>: \<^verbatim>\<open>func\<close> raises \<^verbatim>\<open>ZeroDivisionError\<close> (if it has not
  raised it before, on \<open>sigma*CT = 0\<close> or \<open>sigma*CQ = 0\<close>), and \<^verbatim>\<open>brute_solve\<close>, which
  has no handler, raises with it, whatever the inflow velocity and \<open>omega\<close>.
\<close>

lemma func_grid_start_raises:
  assumes "sec_C sec = 1 \<or> sec_C sec = - 1" and "0 < sec_radius sec"
    and "0 \<le> of_int (n_blades rot) * (blade_radius rot - sec_radius sec)"
    and "of_int (n_blades rot) * (blade_radius rot - sec_radius sec) \<le> 100 * sec_radius sec"
  shows "func rot sec (- 0.9 * pi) v om = Inl ZeroDivisionError"
proof -
  let ?phi = "- 0.9 * pi"
  let ?r = "sec_radius sec"
  let ?N = "of_int (n_blades rot) * (blade_radius rot - ?r)"
  let ?d = "2 * ?r * sin ?phi"
  have s: "sin ?phi \<le> - (1 / 10)" by (rule sin_grid_start)
  have "?r * sin ?phi \<le> ?r * - (1 / 10)" using s assms(2) by (intro mult_left_mono) simp_all
  then have dn: "?r / 5 \<le> - ?d" by simp
  have r5: "0 < ?r / 5" using assms(2) by simp
  have dneg: "?d < 0" using dn r5 by linarith
  then have d0: "?d \<noteq> 0" by (rule less_imp_neq)
  have dv: "py_div ?N ?d = Inr (?N / ?d)"
    using d0 unfolding py_div_def by (rule if_not_P)
  have neg: "?N / ?d \<le> 0" using assms(3) dneg by (simp add: divide_nonneg_neg)
  have "- (?N / ?d) = ?N / (- ?d)" by simp
  also have "\<dots> \<le> ?N / (?r / 5)"
    using assms(3) dn r5 by (intro divide_left_mono) (simp_all add: mult_pos_pos)
  also have "\<dots> = 5 * ?N / ?r" by simp
  also have "\<dots> \<le> 500"
    using assms(2,4) by (simp add: divide_le_eq)
  finally have small: "- (?N / ?d) \<le> 500" .
  have t: "prandtl (n_blades rot) (blade_radius rot - ?r) ?r ?phi = Inr 0"
    unfolding prandtl_def dv using prandtl_factor_neg[OF neg small] by simp
  let ?M = "of_int (n_blades rot) * (?r - radius_hub rot)"
  have dh: "py_div ?M ?d = Inr (?M / ?d)"
    using d0 unfolding py_div_def by (rule if_not_P)
  obtain Fh where Fh: "prandtl_factor (?M / ?d) = Inr Fh" using prandtl_factor_returns by blast
  have h: "prandtl (n_blades rot) (?r - radius_hub rot) ?r ?phi = Inr Fh"
    unfolding prandtl_def dh using Fh by simp
  have "?phi \<noteq> 0" by simp
  then have "tip_loss rot sec ?phi = Inr (0, sec\<lparr>sec_F := 0\<rparr>)"
    unfolding tip_loss_def Let_def t h by simp
  then show ?thesis using assms(1) by (rule func_zero_tip_loss)
qed

lemma brute_solve_raises_general:
  assumes "sec_C sec = 1 \<or> sec_C sec = - 1" and "0 < sec_radius sec"
    and "0 \<le> of_int (n_blades rot) * (blade_radius rot - sec_radius sec)"
    and "of_int (n_blades rot) * (blade_radius rot - sec_radius sec) \<le> 100 * sec_radius sec"
  shows "brute_solve rot sec v om = Inl ZeroDivisionError"
proof -
  obtain rest where c: "linspace (- 0.9 * pi) (0.9 * pi) 3600 = (- 0.9 * pi) # rest"
    using linspace_Cons[of 3600] by auto
  have "func_np rot v om sec (- 0.9 * pi) = Inl ZeroDivisionError"
    unfolding func_np_def func_grid_start_raises[OF assms] by simp
  then have "brute_loop (func_np rot v om) sec (linspace (- 0.9 * pi) (0.9 * pi) 3600)
      = Inl ZeroDivisionError"
    unfolding c by (rule brute_loop_first_raises)
  then show ?thesis by (simp add: brute_solve_def brute_solve_with_def)
qed

text \<open>
  Claim C3 fails on the code. In the scenario, whose airfoil gives the floats
  \<open>Cl = 0.5\<close> and \<open>Cd = 0.02\<close>, \<^verbatim>\<open>brute_solve\<close> does not return a \<open>phi\<close>: it raises
  \<^verbatim>\<open>ZeroDivisionError\<close> at its first grid point \<open>phi = -0.9*pi\<close>, where the
  tip-loss factor is 0, \<open>a = -1\<close> and the residual is \<open>sin(phi) / 0.0\<close>. The test
  \<^verbatim>\<open>np.isnan(res)\<close> that should set such a point aside is never reached.
\<close>

theorem brute_solve_raises:
  "brute_solve (rotor_precalc scenario_rotor) (scenario_section 0.3) 10 (100 * pi)
     = Inl ZeroDivisionError"
proof (rule brute_solve_raises_general)
  show "sec_C (scenario_section 0.3) = 1 \<or> sec_C (scenario_section 0.3) = - 1"
    by (simp add: scenario_section_def)
  show "0 < sec_radius (scenario_section 0.3)" by (simp add: scenario_section_def)
  show "0 \<le> of_int (n_blades (rotor_precalc scenario_rotor))
          * (blade_radius (rotor_precalc scenario_rotor) - sec_radius (scenario_section 0.3))"
    by (simp add: rotor_precalc_def scenario_rotor_def scenario_geometry_def Let_def
        scenario_section_def)
  show "of_int (n_blades (rotor_precalc scenario_rotor))
          * (blade_radius (rotor_precalc scenario_rotor) - sec_radius (scenario_section 0.3))
        \<le> 100 * sec_radius (scenario_section 0.3)"
    by (simp add: rotor_precalc_def scenario_rotor_def scenario_geometry_def Let_def
        scenario_section_def)
qed

section \<open>The sweep in coaxial mode\<close>

lemma rotor_coeffs_Inr:
  assumes "slv_rpm slv / 60 * diameter (slv_rotor slv) \<noteq> 0" and "rho (slv_fluid slv) \<noteq> 0"
    and "Q \<noteq> 0"
  shows "\<exists>c. rotor_coeffs slv T Q P = Inr c"
proof -
  let ?n = "slv_rpm slv / 60" and ?D = "diameter (slv_rotor slv)" and ?rh = "rho (slv_fluid slv)"
  have n: "?n \<noteq> 0" and D: "?D \<noteq> 0" using assms(1) by auto
  have d4: "?rh * ?n\<^sup>2 * ?D ^ 4 \<noteq> 0" using n D assms(2) by simp
  have d5: "?rh * ?n\<^sup>2 * ?D ^ 5 \<noteq> 0" using n D assms(2) by simp
  have cp: "2 * pi * (Q / (?rh * ?n\<^sup>2 * ?D ^ 5)) \<noteq> 0" using d5 assms(3) by simp
  show ?thesis
    unfolding rotor_coeffs_def Let_def
    using assms(1) d4 d5 cp by (simp add: py_div_def)
qed

lemma setattr_rpm_scenario: "setattr (scenario_solver co) ''rpm'' 3000 = scenario_solver co"
  by (simp add: setattr_def scenario_solver_def)

text \<open>
  Claim C6 fails on the code in coaxial mode. In the coaxial scenario, a sweep of
  \<^verbatim>\<open>rpm\<close> with \<open>n = 1\<close> runs both rotors and computes both sets of coefficients, and
  then building the row raises \<^verbatim>\<open>NameError\<close>: the row names \<^verbatim>\<open>eta2\<close>, which is
  assigned nowhere. No row is recorded and no table is returned.
\<close>

theorem run_sweep_coaxial_raises:
  "run_sweep (fixed_root (pi / 6)) (scenario_solver True) ''rpm'' 1 3000 3000 = Inl NameError"
proof -
  let ?slv = "scenario_solver True"
  obtain T Q P rot1 T2 Q2 P2 rot2 r_s v_s where
    r: "run (fixed_root (pi / 6)) ?slv
       = Inr ([PFloat T, PFloat Q, PFloat P, PFrame (sections_dataframe rot1),
               PFloat T2, PFloat Q2, PFloat P2, PFrame (sections_dataframe rot2)],
              ?slv\<lparr>slv_rotor := rot1, slv_T := T, slv_Q := Q, slv_P := P,
                slv_r_s := r_s, slv_v_s := v_s, slv_rotor2 := rot2, slv_T2 := T2, slv_Q2 := Q2,
                slv_P2 := P2\<rparr>)"
    and Q: "0 < Q" and Q2: "0 < Q2" and d: "diameter rot1 = 1"
    using scenario_run_coaxial by blast
  let ?s1 = "?slv\<lparr>slv_rotor := rot1, slv_T := T, slv_Q := Q, slv_P := P,
                slv_r_s := r_s, slv_v_s := v_s, slv_rotor2 := rot2, slv_T2 := T2, slv_Q2 := Q2,
                slv_P2 := P2\<rparr>"
  have a: "slv_rpm ?s1 / 60 * diameter (slv_rotor ?s1) \<noteq> 0" "rho (slv_fluid ?s1) \<noteq> 0"
    using d by (simp_all add: scenario_solver_def scenario_fluid_def)
  obtain c1 where c1: "rotor_coeffs ?s1 T Q P = Inr c1"
    using rotor_coeffs_Inr[OF a, of Q T P] Q by auto
  obtain c2 where c2: "rotor_coeffs ?s1 T2 Q2 P2 = Inr c2"
    using rotor_coeffs_Inr[OF a, of Q2 T2 P2] Q2 by auto
  have m: "slv_mode ?slv \<noteq> ''turbine''" "slv_coaxial ?slv"
    by (simp_all add: scenario_solver_def)
  have st: "sweep_step (fixed_root (pi / 6)) ''rpm'' ?slv 3000 = Inl NameError"
    unfolding sweep_step_def Let_def setattr_rpm_scenario
    using m r c1 c2 by (simp add: split_beta)
  have l: "linspace 3000 3000 1 = [3000]" by (simp add: linspace_def)
  show ?thesis unfolding run_sweep_def Let_def l using st by simp
qed

text \<open>In coaxial mode no sweep over at least one value returns a table, in either mode.\<close>

lemma setattr_keeps [simp]:
  "slv_coaxial (setattr slv name p) = slv_coaxial slv"
  "slv_mode (setattr slv name p) = slv_mode slv"
  by (simp_all add: setattr_def)

lemma bind_r_isl: "isl m \<Longrightarrow> isl (bind_r m f)"
  by (cases m) simp_all

lemma sweep_step_coaxial:
  assumes "slv_coaxial slv"
  shows "isl (sweep_step bisect parameter slv p)"
proof -
  let ?s0 = "setattr slv parameter p"
  have c: "slv_coaxial ?s0" using assms by simp
  show ?thesis
  proof (cases "run bisect ?s0")
    case (Inl e)
    then show ?thesis by (simp add: sweep_step_def Let_def)
  next
    case (Inr q)
    obtain ret slv1 where q: "q = (ret, slv1)" by (cases q)
    obtain T Q P rot1 T2 Q2 P2 rot2 where
      ret: "ret = [PFloat T, PFloat Q, PFloat P, PFrame (sections_dataframe rot1),
                PFloat T2, PFloat Q2, PFloat P2, PFrame (sections_dataframe rot2)]"
      using run_coaxial_Inr[OF c Inr[unfolded q]] by metis
    show ?thesis
    proof (cases "slv_mode slv = ''turbine''")
      case True
      then show ?thesis using Inr q ret by (simp add: sweep_step_def Let_def)
    next
      case False
      then show ?thesis
        using Inr q ret c
        by (auto simp: sweep_step_def Let_def bind_r_def split: sum.splits prod.splits)
    qed
  qed
qed

lemma run_sweep_coaxial:
  assumes "slv_coaxial slv" and "0 < n"
  shows "isl (run_sweep bisect slv parameter n low high)"
proof -
  obtain rest where "linspace low high n = low # rest" using linspace_Cons[OF assms(2)] by blast
  then show ?thesis
    using sweep_step_coaxial[OF assms(1), of bisect parameter low]
    by (auto simp: run_sweep_def Let_def bind_r_def split: sum.splits)
qed

text \<open>
  The residual reads none of the fields it writes: a section that differs in \<^verbatim>\<open>F\<close>,
  \<^verbatim>\<open>a\<close> and \<^verbatim>\<open>ap\<close> only gives the same residual and is left in the same state. So
  the brute-force search does not depend on what earlier calls of the residual left on
  the section.
\<close>

lemma tip_loss_ignores_report:
  "tip_loss rot (sec\<lparr>sec_F := x, sec_a := y, sec_ap := z\<rparr>) phi
     = bind_r (tip_loss rot sec phi) (\<lambda>(F, s). Inr (F, s\<lparr>sec_a := y, sec_ap := z\<rparr>))"
  by (cases "phi = 0") (auto simp: tip_loss_def Let_def bind_r_def split: sum.splits)

lemma func_ignores_report:
  "func rot (sec\<lparr>sec_F := x, sec_a := y, sec_ap := z\<rparr>) phi v om = func rot sec phi v om"
proof (cases "tip_loss rot sec phi")
  case (Inl e)
  then show ?thesis
    by (simp add: func_def induction_factors_def tip_loss_ignores_report)
next
  case (Inr p)
  obtain F s where p: "p = (F, s)" by (cases p)
  have s: "s = sec\<lparr>sec_F := F\<rparr>" using Inr p tip_loss_state by blast
  have af: "airfoil_forces (sec\<lparr>sec_F := F, sec_a := y, sec_ap := z\<rparr>) phi = airfoil_forces sec phi"
    by (simp add: airfoil_forces_def angle_of_attack_def)
  show ?thesis
    unfolding func_def induction_factors_def tip_loss_ignores_report Inr p s Let_def
    by (simp add: af split_beta bind_r_def split: sum.splits)
qed

lemma brute_solve_ignores_report:
  "brute_solve rot (sec\<lparr>sec_F := x, sec_a := y, sec_ap := z\<rparr>) v om = brute_solve rot sec v om"
proof -
  obtain rest where c: "linspace (- 0.9 * pi) (0.9 * pi) 3600 = (- 0.9 * pi) # rest"
    using linspace_Cons[of 3600] by auto
  show ?thesis
    unfolding brute_solve_def brute_solve_with_def Let_def c
    by (simp add: func_np_def func_ignores_report)
qed

end
